theory Spec2Isabelle
  imports Main "HOL-Library.Sublist" "HOL-Library.AList"
begin

section \<open>Python text primitives used by the dashboard\<close>

text \<open>
  The dashboard scripts (\<^verbatim>\<open>app.py\<close>, \<^verbatim>\<open>app3.py\<close>) work on text cells of pandas
  data frames. \<^verbatim>\<open>app3.py\<close>, which has the text functions, reads its tables with
  \<^verbatim>\<open>encoding='latin1'\<close>: every character of a cell is one of the 256 characters of
  Latin-1. Python's case mappings lead out of Latin-1 at three places:
  \<^verbatim>\<open>upper\<close> sends the micro sign (U+00B5) to the Greek capital mu (U+039C) and the small
  y with diaeresis (U+00FF) to its capital (U+0178), and \<^verbatim>\<open>lower\<close> sends the capital mu
  to the Greek small mu (U+03BC). A character of the model is a Latin-1 character or one
  of these three; on them \<open>is_space\<close> is \<^verbatim>\<open>str.isspace\<close>, \<open>upper_char\<close> is \<^verbatim>\<open>str.upper\<close>
  (the sharp s, U+00DF, becomes two letters) and \<open>lower_char\<close> is \<^verbatim>\<open>str.lower\<close>. Column
  names and messages, which the scripts only compare, stay of type \<^typ>\<open>string\<close>.
\<close>

datatype uchar = Latin char | GreekCapitalMu | GreekSmallMu | CapitalYDiaeresis

type_synonym pystr = "uchar list"

abbreviation lit :: "string \<Rightarrow> pystr" where
  "lit s \<equiv> map Latin s"

fun is_space :: "uchar \<Rightarrow> bool" where
  \<comment> \<open>TAB, LF, VT, FF, CR, FS, GS, RS, US, the blank, NEL (U+0085) and the no-break space (U+00A0)\<close>
  "is_space (Latin c) =
     (let n = (of_char c :: nat) in (9 \<le> n \<and> n \<le> 13) \<or> (28 \<le> n \<and> n \<le> 32) \<or> n = 133 \<or> n = 160)"
| "is_space GreekCapitalMu = False"
| "is_space GreekSmallMu = False"
| "is_space CapitalYDiaeresis = False"

definition strip :: "pystr \<Rightarrow> pystr" where
  \<comment> \<open>\<^verbatim>\<open>s.strip()\<close>\<close>
  "strip s = rev (dropWhile is_space (rev (dropWhile is_space s)))"

fun upper_char :: "uchar \<Rightarrow> pystr" where
  \<comment> \<open>a to z, and U+00E0 to U+00FE but the division sign, have their capital 32 places before\<close>
  "upper_char (Latin c) =
     (let n = (of_char c :: nat) in
      if (97 \<le> n \<and> n \<le> 122) \<or> (224 \<le> n \<and> n \<le> 254 \<and> n \<noteq> 247) then [Latin (char_of (n - 32))]
      else if n = 181 then [GreekCapitalMu]
      else if n = 223 then [Latin CHR ''S'', Latin CHR ''S'']
      else if n = 255 then [CapitalYDiaeresis]
      else [Latin c])"
| "upper_char GreekCapitalMu = [GreekCapitalMu]"
| "upper_char GreekSmallMu = [GreekCapitalMu]"
| "upper_char CapitalYDiaeresis = [CapitalYDiaeresis]"

fun lower_char :: "uchar \<Rightarrow> uchar" where
  \<comment> \<open>A to Z, and U+00C0 to U+00DE but the multiplication sign, have their small letter 32 places behind\<close>
  "lower_char (Latin c) =
     (let n = (of_char c :: nat) in
      if (65 \<le> n \<and> n \<le> 90) \<or> (192 \<le> n \<and> n \<le> 222 \<and> n \<noteq> 215) then Latin (char_of (n + 32))
      else Latin c)"
| "lower_char GreekCapitalMu = GreekSmallMu"
| "lower_char GreekSmallMu = GreekSmallMu"
| "lower_char CapitalYDiaeresis = Latin (char_of (255 :: nat))"

definition upper :: "pystr \<Rightarrow> pystr" where
  \<comment> \<open>\<^verbatim>\<open>s.upper()\<close>\<close>
  "upper s = concat (map upper_char s)"

definition lower :: "pystr \<Rightarrow> pystr" where
  \<comment> \<open>\<^verbatim>\<open>s.lower()\<close>\<close>
  "lower s = map lower_char s"

text \<open>
  \<^verbatim>\<open>s.replace(old, new)\<close>: one scan from the left; at every position where \<open>old\<close>
  starts, \<open>new\<close> is written and the scan continues behind that occurrence, so all
  non-overlapping occurrences go and the text produced is not scanned again. An empty
  \<open>old\<close> matches before every character and at the end.
\<close>

fun replace :: "pystr \<Rightarrow> pystr \<Rightarrow> pystr \<Rightarrow> pystr" where
  "replace [] old new = (if old = [] then new else [])"
| "replace (c # cs) old new =
     (if old = [] then new @ c # replace cs old new
      else if prefix old (c # cs) then new @ replace (drop (length old) (c # cs)) old new
      else c # replace cs old new)"

text \<open>
  \<^verbatim>\<open>s.split()\<close> without arguments: the maximal runs of non-whitespace characters, in
  order. \<open>split_aux\<close> carries the token being read, reversed.
\<close>

fun split_aux :: "pystr \<Rightarrow> pystr \<Rightarrow> pystr list" where
  "split_aux acc [] = (if acc = [] then [] else [rev acc])"
| "split_aux acc (c # cs) =
     (if is_space c then (if acc = [] then split_aux [] cs else rev acc # split_aux [] cs)
      else split_aux (c # acc) cs)"

definition split :: "pystr \<Rightarrow> pystr list" where
  "split s = split_aux [] s"

subsection \<open>Cells of a data frame\<close>

text \<open>
  A cell of a frame is a missing float (\<^verbatim>\<open>NaN\<close>, what \<^verbatim>\<open>pd.read_csv\<close> puts for an
  empty field; \<^verbatim>\<open>NaT\<close> of a date column is the same null here), Python's \<^verbatim>\<open>None\<close>, a
  text, an integer, a boolean or a parsed instant. \<open>isna\<close> is \<^verbatim>\<open>pd.isna\<close>, \<open>str\<close> is
  \<^verbatim>\<open>str()\<close> and \<open>truthy\<close> is \<^verbatim>\<open>bool()\<close>. Float cells other than \<^verbatim>\<open>NaN\<close> are not
  modelled. Python prints an instant as its calendar date and time; the model has no
  calendar and prints the number of the instant behind a fixed tag, which no function
  of the scripts looks into.
\<close>

datatype cell = NaN | PyNone | Str pystr | Num int | Bool bool | Ts int

fun isna :: "cell \<Rightarrow> bool" where
  "isna NaN = True"
| "isna PyNone = True"
| "isna _ = False"

fun digits :: "nat \<Rightarrow> pystr" where
  "digits n =
     (if n < 10 then [Latin (char_of (48 + n))]
      else digits (n div 10) @ [Latin (char_of (48 + n mod 10))])"

declare digits.simps [simp del]

definition str_int :: "int \<Rightarrow> pystr" where
  "str_int i = (if i < 0 then Latin CHR ''-'' # digits (nat (- i)) else digits (nat i))"

fun str :: "cell \<Rightarrow> pystr" where
  "str NaN = lit ''nan''"
| "str PyNone = lit ''None''"
| "str (Str s) = s"
| "str (Num i) = str_int i"
| "str (Bool b) = (if b then lit ''True'' else lit ''False'')"
| "str (Ts t) = lit ''Timestamp:'' @ str_int t"

fun truthy :: "cell \<Rightarrow> bool" where
  "truthy NaN = True"
| "truthy PyNone = False"
| "truthy (Str s) = (s \<noteq> [])"
| "truthy (Num i) = (i \<noteq> 0)"
| "truthy (Bool b) = b"
| "truthy (Ts t) = True"

text \<open>
  The \<^verbatim>\<open>.str\<close> accessor of a text column works element by element and gives \<^verbatim>\<open>NaN\<close>
  for an element that is not a text; \<^verbatim>\<open>fillna\<close> replaces the missing cells.
\<close>

definition str_strip :: "cell \<Rightarrow> cell" where
  "str_strip c = (case c of Str s \<Rightarrow> Str (strip s) | _ \<Rightarrow> NaN)"

definition str_lower :: "cell \<Rightarrow> cell" where
  "str_lower c = (case c of Str s \<Rightarrow> Str (lower s) | _ \<Rightarrow> NaN)"

definition fillna :: "pystr \<Rightarrow> cell \<Rightarrow> cell" where
  "fillna d c = (if isna c then Str d else c)"

subsection \<open>Data frames\<close>

text \<open>
  A frame has its column index and its rows; a row lists its cells by column name.
  \<open>cell_at\<close> reads a cell of a row, \<open>assign\<close> is \<^verbatim>\<open>df[c] = ...\<close> (an existing column
  is overwritten where it stands, a new one is appended), \<open>mask\<close> is \<^verbatim>\<open>df[booleans]\<close>,
  \<open>unique\<close> keeps the first occurrence of each value, as \<^verbatim>\<open>Series.unique\<close>.
\<close>

type_synonym row = "(string \<times> cell) list"

record frame =
  columns :: "string list"
  rows :: "row list"

datatype error = KeyError string

definition cell_at :: "row \<Rightarrow> string \<Rightarrow> cell" where
  "cell_at r c = (case map_of r c of Some v \<Rightarrow> v | None \<Rightarrow> NaN)"

definition assign :: "string \<Rightarrow> (row \<Rightarrow> cell) \<Rightarrow> frame \<Rightarrow> frame" where
  "assign c f fr =
     \<lparr>columns = (if c \<in> set (columns fr) then columns fr else columns fr @ [c]),
      rows = map (\<lambda>r. AList.update c (f r) r) (rows fr)\<rparr>"

definition mask :: "(row \<Rightarrow> bool) \<Rightarrow> frame \<Rightarrow> frame" where
  "mask p fr = \<lparr>columns = columns fr, rows = filter p (rows fr)\<rparr>"

definition unique :: "'a list \<Rightarrow> 'a list" where
  "unique xs = rev (remdups (rev xs))"

definition isin :: "cell \<Rightarrow> cell list \<Rightarrow> bool" where
  "isin v vs = (v \<in> set vs)"

section \<open>Identifier normalizer (\<^verbatim>\<open>app3.py\<close>, \<^verbatim>\<open>normalize_id\<close>)\<close>

definition normalize_id :: "cell \<Rightarrow> cell" where
  "normalize_id x =
     (if isna x then PyNone
      else Str (replace (replace (replace (upper (strip (str x))) (lit ''H-CIT-'') []) (lit ''H-'') []) (lit ''CIT-'') []))"

text \<open>The three \<^verbatim>\<open>replace\<close> calls of \<^verbatim>\<open>normalize_id\<close>, in the order of the source.\<close>

definition strip_prefixes :: "pystr \<Rightarrow> pystr" where
  "strip_prefixes u = replace (replace (replace u (lit ''H-CIT-'') []) (lit ''H-'') []) (lit ''CIT-'') []"

text \<open>
  \<open>occurs old s\<close>: the text \<open>old\<close> starts at some position of \<open>s\<close>
  (Python's \<^verbatim>\<open>old in s\<close>).
\<close>

fun occurs :: "pystr \<Rightarrow> pystr \<Rightarrow> bool" where
  "occurs old [] = (old = [])"
| "occurs old (c # cs) = (prefix old (c # cs) \<or> occurs old cs)"

section \<open>Contacts join (\<^verbatim>\<open>app3.py\<close>, lines 184 to 217)\<close>

definition possible_keys :: "string list" where
  "possible_keys = [''party_number'', ''Party_Number'', ''party_id'', ''Party_ID'']"

definition contact_key :: "frame \<Rightarrow> string option" where
  \<comment> \<open>\<^verbatim>\<open>next((k for k in possible_keys if k in contacts_df.columns), None)\<close>\<close>
  "contact_key contacts_df = find (\<lambda>k. k \<in> set (columns contacts_df)) possible_keys"

definition party_number_clean :: "string \<Rightarrow> frame \<Rightarrow> frame" where
  \<comment> \<open>\<^verbatim>\<open>contacts_df["party_number_clean"] = contacts_df[contact_key].apply(normalize_id)\<close>\<close>
  "party_number_clean key contacts_df =
     assign ''party_number_clean'' (\<lambda>r. normalize_id (cell_at r key)) contacts_df"

definition CustomerId_NAR_clean :: "frame \<Rightarrow> frame" where
  \<comment> \<open>\<^verbatim>\<open>df["CustomerId_NAR_clean"] = df["CustomerId_NAR"].apply(normalize_id)\<close>\<close>
  "CustomerId_NAR_clean df =
     assign ''CustomerId_NAR_clean'' (\<lambda>r. normalize_id (cell_at r ''CustomerId_NAR'')) df"

definition matching_ids :: "pystr \<Rightarrow> frame \<Rightarrow> cell list" where
  \<comment> \<open>\<^verbatim>\<open>df.loc[df["Account Name"] == account_choice, "CustomerId_NAR_clean"].dropna().unique()\<close>\<close>
  "matching_ids account_choice df =
     unique (filter (\<lambda>v. \<not> isna v)
       (map (\<lambda>r. cell_at r ''CustomerId_NAR_clean'')
         (filter (\<lambda>r. cell_at r ''Account Name'' = Str account_choice) (rows df))))"

definition semi_join :: "frame \<Rightarrow> cell list \<Rightarrow> frame" where
  \<comment> \<open>\<^verbatim>\<open>contacts_df[contacts_df["party_number_clean"].isin(matching_ids)].copy()\<close>\<close>
  "semi_join contacts_df ids = mask (\<lambda>r. isin (cell_at r ''party_number_clean'') ids) contacts_df"

section \<open>Engagement and status (\<^verbatim>\<open>app3.py\<close>, lines 116 and 222 to 297)\<close>

definition named_rows :: "frame \<Rightarrow> frame" where
  \<comment> \<open>\<^verbatim>\<open>account_data[(account_data["First Name"].notna()) & (account_data["First Name"].str.strip() != "")]\<close>\<close>
  "named_rows account_data =
     mask (\<lambda>r. \<not> isna (cell_at r ''First Name'') \<and> str_strip (cell_at r ''First Name'') \<noteq> Str (lit ''''))
       account_data"

definition engaged_names :: "frame \<Rightarrow> (cell \<times> cell) set" where
  \<comment> \<open>\<^verbatim>\<open>set(zip(named["First Name"].fillna("").str.strip().str.lower(), named["Last Name"]...))\<close>\<close>
  "engaged_names named =
     set (zip (map (\<lambda>r. str_lower (str_strip (fillna [] (cell_at r ''First Name'')))) (rows named))
              (map (\<lambda>r. str_lower (str_strip (fillna [] (cell_at r ''Last Name'')))) (rows named)))"

definition has_engaged_match :: "(cell \<times> cell) set \<Rightarrow> row \<Rightarrow> bool" where
  "has_engaged_match names r =
     (let parts = split (strip (str (case map_of r ''party_unique_name'' of Some v \<Rightarrow> v | None \<Rightarrow> Str (lit ''''))))
      in if length parts \<ge> 2
         then (Str (lower (hd parts)), Str (lower (last parts))) \<in> names
         else False)"

definition check_engaged :: "(cell \<times> cell) set \<Rightarrow> cell \<Rightarrow> bool" where
  "check_engaged pairs name =
     (case name of
        Str s \<Rightarrow>
          (let parts = split (strip s)
           in if length parts < 2 then False
              else (Str (lower (hd parts)), Str (lower (last parts))) \<in> pairs)
      | _ \<Rightarrow> False)"

definition get_status_color :: "row \<Rightarrow> error + string" where
  "get_status_color r =
     (case map_of r ''sales_affinity_code'' of
        None \<Rightarrow> Inl (KeyError ''sales_affinity_code'')
      | Some code \<Rightarrow>
          if strip (str code) \<noteq> [] then Inr ''purple''
          else (case map_of r ''is_engaged'' of
                  None \<Rightarrow> Inl (KeyError ''is_engaged'')
                | Some e \<Rightarrow> if truthy e then Inr ''yellow'' else Inr ''red''))"

text \<open>
  The status as the specification words it, with the colours of the script (purple for
  affinity, yellow for engaged, red for unengaged): affinity if the code is not null
  and not empty after trimming, else engaged if the contact is engaged, else unengaged.
\<close>

definition spec_status :: "cell \<Rightarrow> bool \<Rightarrow> string" where
  "spec_status code engaged =
     (if \<not> isna code \<and> strip (str code) \<noteq> [] then ''purple''
      else if engaged then ''yellow'' else ''red'')"

section \<open>Accounts merge (\<^verbatim>\<open>app.py\<close>, lines 72 to 76)\<close>

text \<open>
  \<^verbatim>\<open>pd.merge(df, db_df, on=key, how="left", suffixes=("", "_DB"))\<close>: the rows of the left
  frame in their order; each one is paired with every row of the right frame that has
  the same key (missing keys match each other in pandas), in the right frame's order, or
  once with \<^verbatim>\<open>NaN\<close> in the right frame's columns when there is none. The key column
  appears once; a right column whose name the left frame has too gets the suffix.
\<close>

definition key_match :: "cell \<Rightarrow> cell \<Rightarrow> bool" where
  "key_match a b = (a = b \<or> (isna a \<and> isna b))"

definition matches :: "string \<Rightarrow> frame \<Rightarrow> row \<Rightarrow> row list" where
  "matches key right l = filter (\<lambda>r. key_match (cell_at l key) (cell_at r key)) (rows right)"

definition right_name :: "string list \<Rightarrow> string \<Rightarrow> string" where
  "right_name left_cols c = (if c \<in> set left_cols then c @ ''_DB'' else c)"

definition right_columns :: "string \<Rightarrow> frame \<Rightarrow> string list" where
  "right_columns key right = filter (\<lambda>c. c \<noteq> key) (columns right)"

definition merge_row :: "string \<Rightarrow> frame \<Rightarrow> frame \<Rightarrow> row \<Rightarrow> row \<Rightarrow> row" where
  "merge_row key left right l r =
     l @ map (\<lambda>c. (right_name (columns left) c, cell_at r c)) (right_columns key right)"

definition null_row :: "string \<Rightarrow> frame \<Rightarrow> frame \<Rightarrow> row \<Rightarrow> row" where
  "null_row key left right l =
     l @ map (\<lambda>c. (right_name (columns left) c, NaN)) (right_columns key right)"

definition merge_rows :: "string \<Rightarrow> frame \<Rightarrow> frame \<Rightarrow> row \<Rightarrow> row list" where
  "merge_rows key left right l =
     (case matches key right l of
        [] \<Rightarrow> [null_row key left right l]
      | m # ms \<Rightarrow> map (merge_row key left right l) (m # ms))"

definition merge_left :: "string \<Rightarrow> frame \<Rightarrow> frame \<Rightarrow> frame" where
  "merge_left key left right =
     \<lparr>columns = columns left @ map (right_name (columns left)) (right_columns key right),
      rows = concat (map (merge_rows key left right) (rows left))\<rparr>"

text \<open>
  \<^verbatim>\<open>st.error(msg); st.stop()\<close> ends the run of the script with the message shown.
  Messages are written without the pictograms and quotation marks of the source.
\<close>

datatype halt = StopExecution string

definition merged :: "frame \<Rightarrow> frame \<Rightarrow> halt + frame" where
  "merged df db_df =
     (if ''CustomerId_NAR'' \<in> set (columns df) \<and> ''CustomerId_NAR'' \<in> set (columns db_df)
      then Inr (merge_left ''CustomerId_NAR'' df db_df)
      else Inl (StopExecution ''Could not find matching CustomerId_NAR column in both datasets.''))"

section \<open>Date column (\<^verbatim>\<open>app.py\<close> \<^verbatim>\<open>load_data\<close>; \<^verbatim>\<open>app3.py\<close>, lines 106 to 109)\<close>

text \<open>
  \<^verbatim>\<open>pd.to_datetime(column, errors="coerce", utc=True)\<close> works cell by cell. Which texts
  pandas reads as a date is not modelled: \<open>parse\<close> is a parameter, \<open>None\<close> where pandas
  cannot read the cell; with \<^verbatim>\<open>errors="coerce"\<close> such a cell becomes the null \<^verbatim>\<open>NaT\<close>.
\<close>

definition to_datetime :: "(cell \<Rightarrow> int option) \<Rightarrow> cell \<Rightarrow> cell" where
  "to_datetime parse c = (case parse c of Some t \<Rightarrow> Ts t | None \<Rightarrow> NaN)"

definition date_candidates :: "string list" where
  "date_candidates = [''Activity Date'', ''Activity_DateOnly'', ''Date'']"

text \<open>The loop of \<^verbatim>\<open>load_data\<close>: the first candidate that is a column, or \<^verbatim>\<open>None\<close>.\<close>

fun date_col :: "string list \<Rightarrow> frame \<Rightarrow> string option" where
  "date_col [] df = None"
| "date_col (col # cols) df = (if col \<in> set (columns df) then Some col else date_col cols df)"

definition load_data :: "(cell \<Rightarrow> int option) \<Rightarrow> frame \<Rightarrow> halt + frame" where
  \<comment> \<open>\<open>df\<close> is what \<^verbatim>\<open>pd.read_csv(path)\<close> returned; \<^verbatim>\<open>if date_col:\<close> tests a text for being non-empty\<close>
  "load_data parse df =
     (case date_col date_candidates df of
        Some c \<Rightarrow>
          if c \<noteq> []
          then Inr (assign ''__date_col__'' (\<lambda>r. cell_at r c)
                      (assign c (\<lambda>r. to_datetime parse (cell_at r c)) df))
          else Inl (StopExecution ''No date column found (expected one of: Activity Date, Activity_DateOnly, Date).'')
      | None \<Rightarrow> Inl (StopExecution ''No date column found (expected one of: Activity Date, Activity_DateOnly, Date).''))"

text \<open>
  The loop of \<^verbatim>\<open>app3.py\<close>: at the first candidate that is a column the parsed column is
  stored as \<^verbatim>\<open>__date_col__\<close> and the loop is left; the loop has no \<^verbatim>\<open>else\<close>.
\<close>

fun normalize_date_columns :: "(cell \<Rightarrow> int option) \<Rightarrow> string list \<Rightarrow> frame \<Rightarrow> frame" where
  "normalize_date_columns parse [] account_data = account_data"
| "normalize_date_columns parse (col # cols) account_data =
     (if col \<in> set (columns account_data)
      then assign ''__date_col__'' (\<lambda>r. to_datetime parse (cell_at r col)) account_data
      else normalize_date_columns parse cols account_data)"

section \<open>Loading (\<^verbatim>\<open>app3.py\<close>, \<^verbatim>\<open>load_csv_from_github\<close>)\<close>

text \<open>
  \<^verbatim>\<open>pd.read_csv(url, encoding=enc)\<close> is the environment: it returns a frame, raises
  \<^verbatim>\<open>UnicodeDecodeError\<close>, or raises another exception (with its text). The model
  returns the encodings tried, in order, with what the function does: return the
  frame, show the error and stop the script, or let the exception of the second
  \<^verbatim>\<open>read_csv\<close> (raised inside the handler, so no handler of this \<^verbatim>\<open>try\<close> sees it) escape.
\<close>

datatype read_result = Parsed frame | UnicodeDecodeError | OtherException string

datatype outcome = Returned frame | Stopped string | Escaped read_result

definition load_csv_from_github :: "(string \<Rightarrow> string \<Rightarrow> read_result) \<Rightarrow> string \<Rightarrow> string list \<times> outcome" where
  "load_csv_from_github read_csv url =
     (case read_csv url ''latin1'' of
        Parsed t \<Rightarrow> ([''latin1''], Returned t)
      | UnicodeDecodeError \<Rightarrow>
          (case read_csv url ''ISO-8859-1'' of
             Parsed t \<Rightarrow> ([''latin1'', ''ISO-8859-1''], Returned t)
           | e \<Rightarrow> ([''latin1'', ''ISO-8859-1''], Escaped e))
      | OtherException e \<Rightarrow> ([''latin1''], Stopped (''Error loading '' @ url @ '': '' @ e)))"

text \<open>The order the specification asks for: UTF-8 first, Latin-1 as the fallback.\<close>

definition spec_encodings :: "string list" where
  "spec_encodings = [''utf-8'', ''latin1'']"

section \<open>The run of \<^verbatim>\<open>app3.py\<close> from the contacts join on\<close>

text \<open>
  The script is a sequence of top-level statements over its variables. A session holds
  the three loaded tables (\<open>df\<close>, \<open>db_df\<close>, \<open>contacts_df\<close>), the derived tables, each a
  copy of its own (\<^verbatim>\<open>.copy()\<close> or the result of a boolean mask), and what was shown to
  the user. A block of statements takes the session and continues with the changed one,
  stops the script (\<^verbatim>\<open>st.stop()\<close>), or raises.
\<close>

record session =
  df :: frame
  db_df :: frame
  contacts_df :: frame
  named :: frame
  account_contacts :: frame
  filtered_contacts :: frame
  shown :: "string list"

datatype progress = Continue session | Stop session | Raise error session

fun session_of :: "progress \<Rightarrow> session" where
  "session_of (Continue s) = s"
| "session_of (Stop s) = s"
| "session_of (Raise e s) = s"

text \<open>
  Lines 184 to 217. \<^verbatim>\<open>df["CustomerId_NAR"]\<close> and \<^verbatim>\<open>df["Account Name"]\<close> raise
  \<^verbatim>\<open>KeyError\<close> for a column that is not there; the assignments to \<^verbatim>\<open>contacts_df\<close> and
  \<^verbatim>\<open>df\<close> are assignments to the loaded tables themselves.
\<close>

definition contacts_join :: "pystr \<Rightarrow> session \<Rightarrow> progress" where
  "contacts_join account_choice s =
     (case contact_key (contacts_df s) of
        None \<Rightarrow>
          Stop (s\<lparr>shown := shown s @ [''Could not find any of these join keys in contacts dataset'']\<rparr>)
      | Some key \<Rightarrow>
          let s1 = s\<lparr>contacts_df := party_number_clean key (contacts_df s)\<rparr> in
          if ''CustomerId_NAR'' \<notin> set (columns (df s1)) then Raise (KeyError ''CustomerId_NAR'') s1
          else
            let s2 = s1\<lparr>df := CustomerId_NAR_clean (df s1)\<rparr> in
            if ''Account Name'' \<notin> set (columns (df s2)) then Raise (KeyError ''Account Name'') s2
            else Continue (s2\<lparr>account_contacts :=
                                semi_join (contacts_df s2) (matching_ids account_choice (df s2))\<rparr>))"

text \<open>
  \<^verbatim>\<open>frame.apply(f, axis=1)\<close> calls \<open>f\<close> on the rows in order and raises what \<open>f\<close> raises;
  \<open>set_column\<close> stores the values it returned.
\<close>

fun apply_rows :: "(row \<Rightarrow> error + 'a) \<Rightarrow> row list \<Rightarrow> error + 'a list" where
  "apply_rows f [] = Inr []"
| "apply_rows f (r # rs) =
     (case f r of
        Inl e \<Rightarrow> Inl e
      | Inr v \<Rightarrow> (case apply_rows f rs of Inl e \<Rightarrow> Inl e | Inr vs \<Rightarrow> Inr (v # vs)))"

definition set_column :: "string \<Rightarrow> cell list \<Rightarrow> frame \<Rightarrow> frame" where
  "set_column c vs fr =
     \<lparr>columns = (if c \<in> set (columns fr) then columns fr else columns fr @ [c]),
      rows = map (\<lambda>(r, v). AList.update c v r) (zip (rows fr) vs)\<rparr>"

text \<open>Lines 222 to 248: \<^verbatim>\<open>is_engaged\<close>, the default affinity column and \<^verbatim>\<open>status_color\<close>.\<close>

definition derive_engagement :: "session \<Rightarrow> progress" where
  "derive_engagement s =
     (if ''First Name'' \<notin> set (columns (named s)) then Raise (KeyError ''First Name'') s
      else if ''Last Name'' \<notin> set (columns (named s)) then Raise (KeyError ''Last Name'') s
      else
        let names = engaged_names (named s);
            a1 = assign ''is_engaged'' (\<lambda>r. Bool (has_engaged_match names r)) (account_contacts s);
            a2 = (if ''sales_affinity_code'' \<notin> set (columns a1)
                  then assign ''sales_affinity_code'' (\<lambda>r. Str (lit '''')) a1 else a1)
        in case apply_rows get_status_color (rows a2) of
             Inl e \<Rightarrow> Raise e (s\<lparr>account_contacts := a2\<rparr>)
           | Inr colors \<Rightarrow>
               Continue (s\<lparr>account_contacts := set_column ''status_color'' (map (\<lambda>c. Str (lit c)) colors) a2\<rparr>))"

text \<open>
  Lines 263 to 272. The name is searched in \<^verbatim>\<open>astype(str).str.lower()\<close> of the name
  column. \<^verbatim>\<open>str.contains\<close> searches with a regular expression, which is not modelled:
  \<open>contains q t\<close> is a parameter. \<open>search_query\<close> is the text of the input field, already
  trimmed and lower-cased.
\<close>

definition filter_contacts ::
    "(pystr \<Rightarrow> pystr \<Rightarrow> bool) \<Rightarrow> string list \<Rightarrow> pystr \<Rightarrow> session \<Rightarrow> progress" where
  "filter_contacts contains color_filter search_query s =
     (if ''status_color'' \<notin> set (columns (account_contacts s)) then Raise (KeyError ''status_color'') s
      else
        let f1 = mask (\<lambda>r. isin (cell_at r ''status_color'') (map (\<lambda>c. Str (lit c)) color_filter)) (account_contacts s);
            f2 = (if search_query \<noteq> [] \<and> ''party_unique_name'' \<in> set (columns f1)
                  then mask (\<lambda>r. contains search_query (lower (str (cell_at r ''party_unique_name'')))) f1
                  else f1)
        in if rows f2 = []
           then Stop (s\<lparr>filtered_contacts := f2, shown := shown s @ [''No contacts found'']\<rparr>)
           else Continue (s\<lparr>filtered_contacts := f2\<rparr>))"

text \<open>Lines 279 to 297: \<^verbatim>\<open>is_engaged\<close> again, on the filtered contacts.\<close>

definition flag_engaged :: "session \<Rightarrow> progress" where
  "flag_engaged s =
     (if ''First Name'' \<notin> set (columns (named s)) then Raise (KeyError ''First Name'') s
      else if ''Last Name'' \<notin> set (columns (named s)) then Raise (KeyError ''Last Name'') s
      else if ''party_unique_name'' \<notin> set (columns (filtered_contacts s))
      then Raise (KeyError ''party_unique_name'') s
      else
        let engaged_pairs = engaged_names (named s)
        in Continue (s\<lparr>filtered_contacts :=
                         assign ''is_engaged''
                           (\<lambda>r. Bool (check_engaged engaged_pairs (cell_at r ''party_unique_name'')))
                           (filtered_contacts s)\<rparr>))"

text \<open>One block after the other; a stop or an exception ends the run.\<close>

definition and_then :: "progress \<Rightarrow> (session \<Rightarrow> progress) \<Rightarrow> progress" where
  "and_then p f = (case p of Continue s \<Rightarrow> f s | Stop s \<Rightarrow> Stop s | Raise e s \<Rightarrow> Raise e s)"

definition derive_all ::
    "(pystr \<Rightarrow> pystr \<Rightarrow> bool) \<Rightarrow> pystr \<Rightarrow> string list \<Rightarrow> pystr \<Rightarrow> session \<Rightarrow> progress" where
  "derive_all contains account_choice color_filter search_query s =
     and_then (and_then (and_then (contacts_join account_choice s) derive_engagement)
                 (filter_contacts contains color_filter search_query))
       flag_engaged"


text \<open>
  \<open>without_column c fr\<close> is the frame \<open>fr\<close> with the column \<open>c\<close> taken out.
  \<open>loaded_view\<close> is what a session holds of the loaded tables apart from the two
  normalized-id columns: the activity table without \<^verbatim>\<open>CustomerId_NAR_clean\<close>, the
  firmographic table, and the contacts table without \<^verbatim>\<open>party_number_clean\<close>.
\<close>

definition without_column :: "string \<Rightarrow> frame \<Rightarrow> frame" where
  "without_column c fr =
     \<lparr>columns = removeAll c (columns fr), rows = map (AList.delete c) (rows fr)\<rparr>"

definition loaded_view :: "session \<Rightarrow> frame \<times> frame \<times> frame" where
  "loaded_view s =
     (without_column ''CustomerId_NAR_clean'' (df s), db_df s,
      without_column ''party_number_clean'' (contacts_df s))"

section \<open>Reading a merged row, and concrete tables\<close>

text \<open>
  A row of the merged frame is a row of the activity frame followed by one cell for
  each firmographic column but the key; \<open>left_part\<close> is the activity row in it.
\<close>

definition left_part :: "string \<Rightarrow> frame \<Rightarrow> row \<Rightarrow> row" where
  "left_part key right out = take (length out - length (right_columns key right)) out"

text \<open>
  Small tables on which the functions are run: three activity rows, of which the first
  has two firmographic rows, the second none and the third one; an activity table
  without any date column; three contacts; a contacts table without any of the key columns; a reader that parses
  in every encoding, one whose source cannot be reached, and one with a decoding fault
  in the first encoding and a parser error in the second.
\<close>

definition activity_example :: frame where
  "activity_example =
     \<lparr>columns = [''CustomerId_NAR'', ''Account Name'', ''First Name'', ''Last Name''],
      rows = [[(''CustomerId_NAR'', Str (lit ''H-CIT-1'')), (''Account Name'', Str (lit ''Acme'')),
               (''First Name'', Str (lit '' Jane '')), (''Last Name'', Str (lit ''DOE''))],
              [(''CustomerId_NAR'', Str (lit ''2'')), (''Account Name'', Str (lit ''Bolt'')),
               (''First Name'', NaN), (''Last Name'', NaN)],
              [(''CustomerId_NAR'', Str (lit ''3'')), (''Account Name'', Str (lit ''Core'')),
               (''First Name'', Str (lit ''Ann'')), (''Last Name'', Str (lit ''Lee''))]]\<rparr>"

definition firmographic_example :: frame where
  "firmographic_example =
     \<lparr>columns = [''CustomerId_NAR'', ''Account Name'', ''Technographics''],
      rows = [[(''CustomerId_NAR'', Str (lit ''H-CIT-1'')), (''Account Name'', Str (lit ''Acme Inc'')),
               (''Technographics'', Str (lit ''x''))],
              [(''CustomerId_NAR'', Str (lit ''3'')), (''Account Name'', Str (lit ''Core Inc'')),
               (''Technographics'', NaN)],
              [(''CustomerId_NAR'', Str (lit ''H-CIT-1'')), (''Account Name'', Str (lit ''Acme Ltd'')),
               (''Technographics'', Str (lit ''y''))]]\<rparr>"

definition undated_example :: frame where
  "undated_example =
     \<lparr>columns = [''Account Name'', ''Type''],
      rows = [[(''Account Name'', Str (lit ''Acme'')), (''Type'', Str (lit ''Webinar''))]]\<rparr>"

definition contacts_example :: frame where
  "contacts_example =
     \<lparr>columns = [''party_number'', ''party_unique_name'', ''sales_affinity_code''],
      rows = [[(''party_number'', Str (lit ''cit-1'')), (''party_unique_name'', Str (lit ''Jane Q Doe'')),
               (''sales_affinity_code'', Str (lit ''''))],
              [(''party_number'', Str (lit ''1'')), (''party_unique_name'', Str (lit ''John Smith'')),
               (''sales_affinity_code'', Str (lit ''X''))],
              [(''party_number'', Str (lit ''3'')), (''party_unique_name'', Str (lit ''Ann Lee'')),
               (''sales_affinity_code'', Str (lit ''''))]]\<rparr>"

definition read_example :: "string \<Rightarrow> string \<Rightarrow> read_result" where
  "read_example url encoding = Parsed activity_example"

definition read_unreachable :: "string \<Rightarrow> string \<Rightarrow> read_result" where
  "read_unreachable url encoding = OtherException ''HTTP Error 404: Not Found''"

definition read_undecodable :: "string \<Rightarrow> string \<Rightarrow> read_result" where
  "read_undecodable url encoding =
     (if encoding = ''latin1'' then UnicodeDecodeError else OtherException ''ParserError'')"

definition no_key_example :: frame where
  "no_key_example =
     \<lparr>columns = [''contact_id'', ''party_unique_name''],
      rows = [[(''contact_id'', Str (lit ''1'')), (''party_unique_name'', Str (lit ''Jane Doe''))]]\<rparr>"

definition session_example :: session where
  "session_example =
     \<lparr>df = activity_example, db_df = firmographic_example, contacts_df = contacts_example,
      named = named_rows (mask (\<lambda>r. cell_at r ''Account Name'' = Str (lit ''Acme'')) activity_example),
      account_contacts = \<lparr>columns = [], rows = []\<rparr>,
      filtered_contacts = \<lparr>columns = [], rows = []\<rparr>,
      shown = []\<rparr>"

section \<open>Properties of the text primitives\<close>

lemma length_replace_le: "length (replace s old []) \<le> length s"
proof (induction s old "[] :: pystr" rule: replace.induct)
  case (1 old)
  then show ?case by simp
next
  case (2 c cs old)
  show ?case
  proof (cases "old = []")
    case True
    with 2 show ?thesis by simp
  next
    case False
    show ?thesis
    proof (cases "prefix old (c # cs)")
      case True
      with False 2 have "length (replace (drop (length old) (c # cs)) old []) \<le> length (drop (length old) (c # cs))"
        by simp
      also have "\<dots> \<le> length (c # cs)" by simp
      finally show ?thesis using True False by simp
    next
      case no: False
      with False 2 show ?thesis by simp
    qed
  qed
qed

lemma replace_prefix_shorter:
  assumes "old \<noteq> []" "prefix old (c # cs)"
  shows "length (replace (c # cs) old []) < length (c # cs)"
proof -
  have 1: "length (replace (drop (length old) (c # cs)) old []) \<le> length (drop (length old) (c # cs))"
    by (rule length_replace_le)
  have "0 < length old" using assms(1) by simp
  then have 2: "length (drop (length old) (c # cs)) < length (c # cs)"
    by simp
  have 3: "replace (c # cs) old [] = replace (drop (length old) (c # cs)) old []"
    using assms by simp
  from 1 2 show ?thesis unfolding 3 by (rule le_less_trans)
qed

lemma replace_same_length:
  "old \<noteq> [] \<Longrightarrow> length (replace s old []) = length s \<Longrightarrow> replace s old [] = s"
proof (induction s)
  case Nil
  then show ?case by simp
next
  case (Cons c cs)
  show ?case
  proof (cases "prefix old (c # cs)")
    case True
    with Cons.prems replace_prefix_shorter[of old c cs] show ?thesis by simp
  next
    case False
    with Cons show ?thesis by simp
  qed
qed

lemma replace_id_iff:
  "old \<noteq> [] \<Longrightarrow> (replace s old [] = s) = (\<not> occurs old s)"
proof (induction s)
  case Nil
  then show ?case by simp
next
  case (Cons c cs)
  show ?case
  proof (cases "prefix old (c # cs)")
    case True
    with Cons.prems replace_prefix_shorter[of old c cs] show ?thesis by auto
  next
    case False
    with Cons show ?thesis by simp
  qed
qed

lemma set_replace_subset: "set (replace s old []) \<subseteq> set s"
proof (induction s old "[] :: pystr" rule: replace.induct)
  case (1 old)
  then show ?case by simp
next
  case (2 c cs old)
  show ?case
  proof (cases "old = []")
    case True
    with 2 show ?thesis by auto
  next
    case False
    show ?thesis
    proof (cases "prefix old (c # cs)")
      case True
      with False 2 have "set (replace (drop (length old) (c # cs)) old []) \<subseteq> set (drop (length old) (c # cs))"
        by simp
      also have "\<dots> \<subseteq> set (c # cs)" by (rule set_drop_subset)
      finally show ?thesis using True False by simp
    next
      case no: False
      with False 2 show ?thesis by auto
    qed
  qed
qed

lemma of_char_minus_32: "of_char (char_of (of_char c - 32 :: nat)) = (of_char c - 32 :: nat)"
  by (simp add: of_char_of less_imp_diff_less)

lemma upper_char_idem: "d \<in> set (upper_char c) \<Longrightarrow> upper_char d = [d]"
proof (cases c)
  case (Latin ch)
  assume d: "d \<in> set (upper_char c)"
  let ?n = "of_char ch :: nat"
  consider (shift) "(97 \<le> ?n \<and> ?n \<le> 122) \<or> (224 \<le> ?n \<and> ?n \<le> 254 \<and> ?n \<noteq> 247)"
    | (mu) "?n = 181" | (sharp) "?n = 223" | (y) "?n = 255"
    | (same) "\<not> ((97 \<le> ?n \<and> ?n \<le> 122) \<or> (224 \<le> ?n \<and> ?n \<le> 254 \<and> ?n \<noteq> 247))"
        "?n \<noteq> 181" "?n \<noteq> 223" "?n \<noteq> 255"
    by blast
  then show ?thesis
  proof cases
    case shift
    with d Latin have "d = Latin (char_of (?n - 32))" by (auto simp: Let_def)
    with shift show ?thesis by (auto simp: Let_def of_char_minus_32)
  next
    case mu
    with d Latin show ?thesis by (auto simp: Let_def)
  next
    case sharp
    with d Latin show ?thesis by (auto simp: Let_def)
  next
    case y
    with d Latin show ?thesis by (auto simp: Let_def)
  next
    case same
    with d Latin have "d = Latin ch" by (auto simp: Let_def)
    with same show ?thesis by (auto simp: Let_def)
  qed
qed auto

lemma set_strip_subset: "set (strip s) \<subseteq> set s"
proof -
  have "set (strip s) \<subseteq> set (dropWhile is_space s)"
    using set_dropWhileD[of _ is_space "rev (dropWhile is_space s)"] by (auto simp: strip_def)
  also have "\<dots> \<subseteq> set s" using set_dropWhileD[of _ is_space s] by auto
  finally show ?thesis .
qed

lemma occurs_prefix_mono: "occurs (a @ b) s \<Longrightarrow> occurs a s"
  by (induction s) (auto simp: prefix_def)

lemma strip_length_le_drop: "length (strip s) \<le> length (dropWhile is_space s)"
proof -
  have "length (dropWhile is_space (rev (dropWhile is_space s))) \<le> length (rev (dropWhile is_space s))"
    by (rule length_dropWhile_le)
  then show ?thesis by (simp add: strip_def)
qed

lemma strip_length_le: "length (strip s) \<le> length s"
  using strip_length_le_drop[of s] length_dropWhile_le[of is_space s] by (rule le_trans)

lemma dropWhile_same_length:
  assumes "length (dropWhile P xs) = length xs"
  shows "dropWhile P xs = xs"
proof (cases xs)
  case Nil
  then show ?thesis by simp
next
  case (Cons x xs')
  show ?thesis
  proof (cases "P x")
    case True
    have "length (dropWhile P xs') \<le> length xs'" by (rule length_dropWhile_le)
    with assms Cons True show ?thesis by simp
  next
    case False
    with Cons show ?thesis by simp
  qed
qed

lemma strip_same_length:
  assumes "length (strip s) = length s"
  shows "strip s = s"
proof -
  let ?d = "dropWhile is_space s"
  have a: "length (strip s) \<le> length ?d" by (rule strip_length_le_drop)
  have b: "length ?d \<le> length s" by (rule length_dropWhile_le)
  from a b assms have "length ?d = length s" by simp
  then have d: "?d = s" by (rule dropWhile_same_length)
  with assms have "length (dropWhile is_space (rev s)) = length (rev s)"
    by (simp add: strip_def)
  then have "dropWhile is_space (rev s) = rev s" by (rule dropWhile_same_length)
  with d show ?thesis by (simp add: strip_def)
qed


lemma strip_decompose:
  "dropWhile is_space s = strip s @ rev (takeWhile is_space (rev (dropWhile is_space s)))"
proof -
  let ?d = "dropWhile is_space s"
  have "strip s @ rev (takeWhile is_space (rev ?d))
        = rev (takeWhile is_space (rev ?d) @ dropWhile is_space (rev ?d))"
    by (simp only: strip_def rev_append)
  also have "\<dots> = rev (rev ?d)" by (simp only: takeWhile_dropWhile_id)
  also have "\<dots> = ?d" by (rule rev_rev_ident)
  finally show ?thesis by (rule sym)
qed

lemma strip_surrounded:
  "\<exists>a b. s = a @ strip s @ b \<and> (\<forall>c \<in> set a \<union> set b. is_space c)"
proof -
  let ?a = "takeWhile is_space s"
  let ?b = "rev (takeWhile is_space (rev (dropWhile is_space s)))"
  have "s = ?a @ dropWhile is_space s" by simp
  also have "dropWhile is_space s = strip s @ ?b" by (rule strip_decompose)
  finally have "s = ?a @ strip s @ ?b" .
  moreover have "\<forall>c \<in> set ?a \<union> set ?b. is_space c" by (auto dest: set_takeWhileD)
  ultimately show ?thesis by blast
qed

lemma strip_ends:
  assumes "strip s \<noteq> []"
  shows "\<not> is_space (hd (strip s)) \<and> \<not> is_space (last (strip s))"
proof
  let ?d = "dropWhile is_space s"
  have d: "?d \<noteq> []"
  proof
    assume "?d = []"
    then have "strip s = []" unfolding strip_def by (simp only: rev.simps dropWhile.simps)
    with assms show False by (rule notE)
  qed
  from assms strip_decompose[of s] have "hd ?d = hd (strip s)" by (metis hd_append2)
  with hd_dropWhile[OF d] show "\<not> is_space (hd (strip s))" by simp
  let ?e = "dropWhile is_space (rev ?d)"
  have e: "?e \<noteq> []"
  proof
    assume "?e = []"
    then have "strip s = []" unfolding strip_def by (simp only: rev.simps)
    with assms show False by (rule notE)
  qed
  have "last (strip s) = hd ?e" unfolding strip_def using e by (simp add: last_rev)
  with hd_dropWhile[OF e] show "\<not> is_space (last (strip s))" by simp
qed

lemma upper_fixed: "\<forall>c \<in> set s. upper_char c = [c] \<Longrightarrow> upper s = s"
  by (induction s) (simp_all add: upper_def)

lemma upper_chars_fixed: "\<forall>c \<in> set (upper s). upper_char c = [c]"
  by (auto simp: upper_def upper_char_idem)

lemma strip_prefixes_length_le: "length (strip_prefixes u) \<le> length u"
  unfolding strip_prefixes_def
  by (meson length_replace_le le_trans)

lemma strip_prefixes_chars: "set (strip_prefixes u) \<subseteq> set u"
  unfolding strip_prefixes_def
  by (meson set_replace_subset subset_trans)

lemma strip_prefixes_id_iff:
  "(strip_prefixes y = y) = (\<not> occurs (lit ''H-'') y \<and> \<not> occurs (lit ''CIT-'') y)"
proof
  assume eq: "strip_prefixes y = y"
  let ?a = "replace y (lit ''H-CIT-'') []" and ?b = "replace (replace y (lit ''H-CIT-'') []) (lit ''H-'') []"
  have l1: "length ?a \<le> length y" by (rule length_replace_le)
  have l2: "length ?b \<le> length ?a" by (rule length_replace_le)
  have l3: "length (replace ?b (lit ''CIT-'') []) \<le> length ?b" by (rule length_replace_le)
  from eq have l4: "length (replace ?b (lit ''CIT-'') []) = length y" by (simp add: strip_prefixes_def)
  from l1 l2 l3 l4 have "length ?a = length y" by linarith
  then have a: "?a = y" by (intro replace_same_length) simp_all
  from l1 l2 l3 l4 a have "length (replace y (lit ''H-'') []) = length y" by simp
  then have b: "replace y (lit ''H-'') [] = y" by (intro replace_same_length) simp_all
  from eq a b have c: "replace y (lit ''CIT-'') [] = y" by (simp add: strip_prefixes_def)
  from b c show "\<not> occurs (lit ''H-'') y \<and> \<not> occurs (lit ''CIT-'') y"
    by (simp add: replace_id_iff)
next
  assume h: "\<not> occurs (lit ''H-'') y \<and> \<not> occurs (lit ''CIT-'') y"
  have "\<not> occurs ((lit ''H-'') @ (lit ''CIT-'')) y" using h occurs_prefix_mono by blast
  then have a: "replace y (lit ''H-CIT-'') [] = y" by (simp add: replace_id_iff)
  from h have b: "replace y (lit ''H-'') [] = y" and c: "replace y (lit ''CIT-'') [] = y"
    by (simp_all add: replace_id_iff)
  show "strip_prefixes y = y" by (simp only: strip_prefixes_def a b c)
qed

lemma normalize_id_Str: "normalize_id (Str x) = Str (strip_prefixes (upper (strip x)))"
  by (simp add: normalize_id_def strip_prefixes_def)

lemma replace_at_occurrence:
  assumes "p \<noteq> []"
  shows "replace (p @ b) p [] = replace b p []"
proof -
  from assms obtain c cs where p: "p = c # cs" by (cases p) auto
  have "replace (c # (cs @ b)) p [] = replace (drop (length p) (c # (cs @ b))) p []"
    using assms by (simp add: p)
  then show ?thesis by (simp add: p)
qed

lemma prefix_within:
  assumes "prefix p (u @ v)" "length p \<le> length u"
  shows "prefix p u"
proof -
  from assms(1) obtain zs where eq: "u @ v = p @ zs" by (auto simp: prefix_def)
  have "take (length p) (u @ v) = take (length p) u" using assms(2) by simp
  moreover have "take (length p) (p @ zs) = p" by simp
  ultimately have "p = take (length p) u" using eq by simp
  then show ?thesis by (metis take_is_prefix)
qed

lemma replace_leftmost:
  "p \<noteq> [] \<Longrightarrow> \<not> occurs p (a @ butlast p) \<Longrightarrow> replace (a @ p @ b) p [] = a @ replace b p []"
proof (induction a)
  case Nil
  then show ?case by (simp add: replace_at_occurrence)
next
  case (Cons x a)
  from Cons.prems have np: "\<not> prefix p (x # a @ butlast p)" and no: "\<not> occurs p (a @ butlast p)"
    by simp_all
  have split_p: "x # a @ p @ b = (x # a @ butlast p) @ (last p # b)"
    using Cons.prems(1) by simp
  have "\<not> prefix p (x # a @ p @ b)"
  proof
    assume "prefix p (x # a @ p @ b)"
    then have "prefix p ((x # a @ butlast p) @ (last p # b))" by (simp only: split_p)
    moreover have "length p \<le> length (x # a @ butlast p)" by simp
    ultimately have "prefix p (x # a @ butlast p)" by (rule prefix_within)
    with np show False by simp
  qed
  then have "replace (x # a @ p @ b) p [] = x # replace (a @ p @ b) p []"
    using Cons.prems(1) by simp
  with Cons.IH[OF Cons.prems(1) no] show ?case by simp
qed

section \<open>Properties of the identifier normalizer\<close>

text \<open>
  Claim C1 (as the code has it). \<^verbatim>\<open>normalize_id\<close> returns \<^verbatim>\<open>None\<close> for a missing input.
  For a text \<open>x\<close> with \<open>normalize_id x = y\<close>, normalizing \<open>y\<close> again gives \<open>y\<close> exactly
  when \<open>y\<close> has no whitespace at its ends and contains neither \<^verbatim>\<open>H-\<close> nor \<^verbatim>\<open>CIT-\<close>:
  each \<^verbatim>\<open>replace\<close> is one scan, and what it leaves behind can join to a new prefix.
\<close>

theorem normalize_id_idempotent_iff:
  "normalize_id NaN = PyNone \<and> normalize_id PyNone = PyNone \<and>
   (normalize_id (Str x) = Str y \<longrightarrow>
      (normalize_id (normalize_id (Str x)) = normalize_id (Str x))
      = (strip y = y \<and> \<not> occurs (lit ''H-'') y \<and> \<not> occurs (lit ''CIT-'') y))"
proof (intro conjI impI)
  show "normalize_id NaN = PyNone" "normalize_id PyNone = PyNone"
    by (simp_all add: normalize_id_def)
next
  assume xy: "normalize_id (Str x) = Str y"
  then have y: "y = strip_prefixes (upper (strip x))" by (simp add: normalize_id_Str)
  have "set y \<subseteq> set (upper (strip x))" unfolding y by (rule strip_prefixes_chars)
  then have fixed: "\<forall>c \<in> set y. upper_char c = [c]" using upper_chars_fixed[of "strip x"] by blast
  then have up: "upper y = y" by (rule upper_fixed)
  from fixed set_strip_subset[of y] have ups: "upper (strip y) = strip y"
    by (intro upper_fixed) blast
  have "(normalize_id (Str y) = Str y) = (strip y = y \<and> \<not> occurs (lit ''H-'') y \<and> \<not> occurs (lit ''CIT-'') y)"
  proof
    assume "normalize_id (Str y) = Str y"
    then have eq: "strip_prefixes (upper (strip y)) = y" by (simp add: normalize_id_Str)
    have "length y \<le> length (upper (strip y))"
      using strip_prefixes_length_le[of "upper (strip y)"] eq by simp
    then have "length y \<le> length (strip y)" by (simp add: ups)
    with strip_length_le[of y] have "strip y = y" by (intro strip_same_length) simp
    with eq up have "strip_prefixes y = y" by simp
    with \<open>strip y = y\<close> show "strip y = y \<and> \<not> occurs (lit ''H-'') y \<and> \<not> occurs (lit ''CIT-'') y"
      by (simp add: strip_prefixes_id_iff)
  next
    assume "strip y = y \<and> \<not> occurs (lit ''H-'') y \<and> \<not> occurs (lit ''CIT-'') y"
    then show "normalize_id (Str y) = Str y"
      by (simp add: normalize_id_Str up strip_prefixes_id_iff)
  qed
  with xy show "(normalize_id (normalize_id (Str x)) = normalize_id (Str x))
      = (strip y = y \<and> \<not> occurs (lit ''H-'') y \<and> \<not> occurs (lit ''CIT-'') y)" by simp
qed

text \<open>An input that satisfies the condition of C1: the second normalization changes nothing.\<close>

theorem normalize_id_idempotent_iff_witness:
  "normalize_id (Str (lit ''h-cit-1234 '')) = Str (lit ''1234'') \<and>
   normalize_id (normalize_id (Str (lit ''h-cit-1234 ''))) = normalize_id (Str (lit ''h-cit-1234 ''))"
proof -
  have a: "normalize_id (Str (lit ''h-cit-1234 '')) = Str (lit ''1234'')"
    by code_simp
  have b: "strip (lit ''1234'') = (lit ''1234'') \<and> \<not> occurs (lit ''H-'') (lit ''1234'') \<and> \<not> occurs (lit ''CIT-'') (lit ''1234'')"
    by (simp add: strip_def)
  from normalize_id_idempotent_iff[of "(lit ''h-cit-1234 '')" "(lit ''1234'')"] a b show ?thesis by blast
qed

text \<open>
  Claim C1 as stated fails: \<^verbatim>\<open>HH--1\<close> is normalized to \<^verbatim>\<open>H-1\<close> (the scan removes the
  \<^verbatim>\<open>H-\<close> in the middle), and \<^verbatim>\<open>H-1\<close> is normalized to \<^verbatim>\<open>1\<close>. Likewise \<^verbatim>\<open>H-\<close>, a
  no-break space and \<^verbatim>\<open>1\<close>: the removal leaves the space at the front, and the second
  normalization trims it.
\<close>

theorem normalize_id_not_idempotent:
  "normalize_id (normalize_id (Str (lit ''HH--1''))) \<noteq> normalize_id (Str (lit ''HH--1''))
   \<and> normalize_id (normalize_id (Str (lit ''H-'' @ Latin (CHR 0xA0) # lit ''1'')))
       \<noteq> normalize_id (Str (lit ''H-'' @ Latin (CHR 0xA0) # lit ''1''))"
  by code_simp

text \<open>
  Claim C2. For every input that is not missing, \<^verbatim>\<open>normalize_id\<close> is \<^verbatim>\<open>str\<close>, \<^verbatim>\<open>strip\<close>,
  \<^verbatim>\<open>upper\<close> and then the three removals, of \<^verbatim>\<open>H-CIT-\<close>, \<^verbatim>\<open>H-\<close> and \<^verbatim>\<open>CIT-\<close>, each run
  once and in this order. A removal works anywhere in the text: the leftmost
  occurrence is cut out wherever it stands and the scan goes on behind it, and a text
  without an occurrence is left as it is. Trimming takes whitespace, and nothing else,
  from both ends, the no-break space included; upper-casing reaches the letters of
  Latin-1. The four identifiers of the specification all give \<^verbatim>\<open>1234\<close>.
\<close>

theorem normalize_id_pipeline:
  "(\<not> isna x \<longrightarrow>
      normalize_id x =
        Str (replace (replace (replace (upper (strip (str x))) (lit ''H-CIT-'') []) (lit ''H-'') []) (lit ''CIT-'') []))
   \<and> (p \<noteq> [] \<and> \<not> occurs p (a @ butlast p) \<longrightarrow> replace (a @ p @ b) p [] = a @ replace b p [])
   \<and> (p \<noteq> [] \<and> \<not> occurs p s \<longrightarrow> replace s p [] = s)
   \<and> normalize_id (Str (lit ''H-CIT-1234'')) = Str (lit ''1234'')
   \<and> normalize_id (Str (lit ''H-1234'')) = Str (lit ''1234'')
   \<and> normalize_id (Str (lit ''CIT-1234'')) = Str (lit ''1234'')
   \<and> normalize_id (Str (lit ''1234'')) = Str (lit ''1234'')
   \<and> (\<exists>u v. t = u @ strip t @ v \<and> (\<forall>c \<in> set u \<union> set v. is_space c))
   \<and> (strip t \<noteq> [] \<longrightarrow> \<not> is_space (hd (strip t)) \<and> \<not> is_space (last (strip t)))
   \<and> normalize_id (Str (Latin (CHR 0xA0) # lit ''h-cit-1234 '' @ [Latin (CHR 0x09), Latin (CHR 0x85)]))
       = Str (lit ''1234'')
   \<and> normalize_id (Str (lit ''H-'' @ Latin (CHR 0xA0) # lit ''1'')) = Str (Latin (CHR 0xA0) # lit ''1'')
   \<and> normalize_id (Str (lit ''cit-az'' @ [Latin (CHR 0xE9), Latin (CHR 0xDF), Latin (CHR 0xFF),
                                          Latin (CHR 0xB5), Latin (CHR 0xF7)]))
       = Str (lit ''AZ'' @ [Latin (CHR 0xC9), Latin CHR ''S'', Latin CHR ''S'', CapitalYDiaeresis,
                            GreekCapitalMu, Latin (CHR 0xF7)])"
proof (intro conjI impI)
  show "normalize_id x =
        Str (replace (replace (replace (upper (strip (str x))) (lit ''H-CIT-'') []) (lit ''H-'') []) (lit ''CIT-'') [])"
    if "\<not> isna x" using that by (simp add: normalize_id_def)
  show "replace (a @ p @ b) p [] = a @ replace b p []" if "p \<noteq> [] \<and> \<not> occurs p (a @ butlast p)"
    using that by (simp add: replace_leftmost)
  show "replace s p [] = s" if "p \<noteq> [] \<and> \<not> occurs p s"
    using that by (simp add: replace_id_iff)
  show "normalize_id (Str (lit ''H-CIT-1234'')) = Str (lit ''1234'')" by code_simp
  show "normalize_id (Str (lit ''H-1234'')) = Str (lit ''1234'')" by code_simp
  show "normalize_id (Str (lit ''CIT-1234'')) = Str (lit ''1234'')" by code_simp
  show "normalize_id (Str (lit ''1234'')) = Str (lit ''1234'')" by code_simp
  show "\<exists>u v. t = u @ strip t @ v \<and> (\<forall>c \<in> set u \<union> set v. is_space c)"
    by (rule strip_surrounded)
  show "\<not> is_space (hd (strip t))" "\<not> is_space (last (strip t))" if "strip t \<noteq> []"
    using strip_ends[OF that] by simp_all
  show "normalize_id (Str (Latin (CHR 0xA0) # lit ''h-cit-1234 '' @ [Latin (CHR 0x09), Latin (CHR 0x85)]))
       = Str (lit ''1234'')" by code_simp
  show "normalize_id (Str (lit ''H-'' @ Latin (CHR 0xA0) # lit ''1'')) = Str (Latin (CHR 0xA0) # lit ''1'')"
    by code_simp
  show "normalize_id (Str (lit ''cit-az'' @ [Latin (CHR 0xE9), Latin (CHR 0xDF), Latin (CHR 0xFF),
                                          Latin (CHR 0xB5), Latin (CHR 0xF7)]))
       = Str (lit ''AZ'' @ [Latin (CHR 0xC9), Latin CHR ''S'', Latin CHR ''S'', CapitalYDiaeresis,
                            GreekCapitalMu, Latin (CHR 0xF7)])" by code_simp
qed

text \<open>
  An integer identifier, a prefix in the middle of a text, a text without the prefix,
  and a text with whitespace at both ends.
\<close>

theorem normalize_id_pipeline_witness:
  "normalize_id (Num 42) = Str (lit ''42'')
   \<and> replace (lit ''AB-'' @ lit ''H-'' @ lit ''9H-8'') (lit ''H-'') [] = lit ''AB-98''
   \<and> replace (lit ''X-77'') (lit ''CIT-'') [] = lit ''X-77''
   \<and> \<not> is_space (hd (strip (lit '' h-1 ''))) \<and> \<not> is_space (last (strip (lit '' h-1 '')))"
proof -
  have 1: "\<not> isna (Num 42)" by simp
  have 2: "lit ''H-'' \<noteq> [] \<and> \<not> occurs (lit ''H-'') (lit ''AB-'' @ butlast (lit ''H-''))" by simp
  have 3: "lit ''CIT-'' \<noteq> [] \<and> \<not> occurs (lit ''CIT-'') (lit ''X-77'')" by simp
  have 4: "Str (replace (replace (replace (upper (strip (str (Num 42)))) (lit ''H-CIT-'') []) (lit ''H-'') []) (lit ''CIT-'') []) = Str (lit ''42'')"
    by code_simp
  have 5: "lit ''AB-'' @ replace (lit ''9H-8'') (lit ''H-'') [] = lit ''AB-98''" by code_simp
  have 6: "strip (lit '' h-1 '') \<noteq> []" by code_simp
  note t1 = normalize_id_pipeline[of "Num 42" "lit ''H-''" "lit ''AB-''" "lit ''9H-8''" "lit ''X-77''" "lit '' h-1 ''"]
  note t2 = normalize_id_pipeline[of "Num 42" "lit ''CIT-''" "lit ''AB-''" "lit ''9H-8''" "lit ''X-77''" "lit '' h-1 ''"]
  from t1 1 4 have a: "normalize_id (Num 42) = Str (lit ''42'')" by simp
  from t1 2 5 have b: "replace (lit ''AB-'' @ lit ''H-'' @ lit ''9H-8'') (lit ''H-'') [] = lit ''AB-98''"
    by simp
  from t2 3 have c: "replace (lit ''X-77'') (lit ''CIT-'') [] = lit ''X-77''" by blast
  from t1 6 have d: "\<not> is_space (hd (strip (lit '' h-1 ''))) \<and> \<not> is_space (last (strip (lit '' h-1 '')))"
    by blast
  from a b c d show ?thesis by blast
qed

section \<open>Properties of the engagement test and the status\<close>

lemma split_aux_spaces:
  "\<forall>c \<in> set ws. is_space c \<Longrightarrow> split_aux acc ws = (if acc = [] then [] else [rev acc])"
  by (induction ws arbitrary: acc) auto

lemma split_aux_append_spaces:
  "\<forall>c \<in> set ws. is_space c \<Longrightarrow> split_aux acc (s @ ws) = split_aux acc s"
  by (induction s arbitrary: acc) (auto simp: split_aux_spaces)

lemma split_aux_dropWhile: "split_aux [] (dropWhile is_space s) = split_aux [] s"
  by (induction s) auto

lemma split_strip: "split (strip s) = split s"
proof -
  let ?ws = "rev (takeWhile is_space (rev (dropWhile is_space s)))"
  have sp: "\<forall>c \<in> set ?ws. is_space c" by (auto dest: set_takeWhileD)
  have "split s = split_aux [] (dropWhile is_space s)"
    by (simp add: split_def split_aux_dropWhile)
  also have "\<dots> = split_aux [] (strip s @ ?ws)" using strip_decompose[of s] by simp
  also have "\<dots> = split_aux [] (strip s)" using sp by (rule split_aux_append_spaces)
  finally show ?thesis by (simp add: split_def)
qed

lemma split_aux_word:
  "\<forall>c \<in> set w. \<not> is_space c \<Longrightarrow> split_aux acc (w @ rest) = split_aux (rev w @ acc) rest"
  by (induction w arbitrary: acc) auto

lemma split_first_word:
  assumes "f \<noteq> []" "\<forall>c \<in> set f. \<not> is_space c" "is_space b"
  shows "split_aux [] (f @ b # rest) = f # split_aux [] rest"
  using assms by (simp add: split_aux_word)

lemma split_single_word:
  assumes "l \<noteq> []" "\<forall>c \<in> set l. \<not> is_space c"
  shows "split_aux [] l = [l]"
  using assms split_aux_word[of l "[]" "[]"] by simp

lemma split_last_word:
  assumes "l \<noteq> []" "\<forall>c \<in> set l. \<not> is_space c" "is_space b"
  shows "split_aux acc (xs @ b # l) = split_aux acc (xs @ [b]) @ [l]"
  using assms by (induction xs arbitrary: acc) (auto simp: split_single_word)

lemma split_first_last:
  assumes "f \<noteq> []" "\<forall>c \<in> set f. \<not> is_space c" "l \<noteq> []" "\<forall>c \<in> set l. \<not> is_space c"
  shows "\<exists>ms. split (f @ lit '' '' @ mid @ lit '' '' @ l) = f # ms @ [l]"
proof -
  have b: "is_space (Latin CHR '' '')" by simp
  have "split (f @ lit '' '' @ mid @ lit '' '' @ l) = split_aux [] (f @ Latin CHR '' '' # (mid @ Latin CHR '' '' # l))"
    by (simp add: split_def)
  also have "\<dots> = f # split_aux [] (mid @ Latin CHR '' '' # l)"
    using assms(1,2) b by (rule split_first_word)
  also have "\<dots> = f # split_aux [] (mid @ lit '' '') @ [l]"
    using split_last_word[OF assms(3,4) b, of "[]" mid] by simp
  finally show ?thesis by blast
qed

lemma engaged_names_image:
  "engaged_names fr =
     (\<lambda>r. (str_lower (str_strip (fillna [] (cell_at r ''First Name''))),
           str_lower (str_strip (fillna [] (cell_at r ''Last Name''))))) ` set (rows fr)"
  by (simp add: engaged_names_def zip_map_map zip_same_conv_map image_image comp_def)

lemma name_key_cases:
  "str_lower (str_strip (fillna [] c)) =
     (case c of Str s \<Rightarrow> Str (lower (strip s)) | NaN \<Rightarrow> Str [] | PyNone \<Rightarrow> Str []
      | Num i \<Rightarrow> NaN | Bool b \<Rightarrow> NaN | Ts t \<Rightarrow> NaN)"
  by (cases c) (simp_all add: str_lower_def str_strip_def fillna_def strip_def lower_def)

lemma named_cases:
  "(\<not> isna c \<and> str_strip c \<noteq> Str []) =
     (case c of Str s \<Rightarrow> strip s \<noteq> [] | NaN \<Rightarrow> False | PyNone \<Rightarrow> False
      | Num i \<Rightarrow> True | Bool b \<Rightarrow> True | Ts t \<Rightarrow> True)"
  by (cases c) (simp_all add: str_strip_def)

lemma engaged_names_explicit:
  "engaged_names (named_rows account_data) =
     (\<lambda>r. (case cell_at r ''First Name'' of
               Str s \<Rightarrow> Str (lower (strip s)) | NaN \<Rightarrow> Str [] | PyNone \<Rightarrow> Str []
             | Num i \<Rightarrow> NaN | Bool b \<Rightarrow> NaN | Ts t \<Rightarrow> NaN,
            case cell_at r ''Last Name'' of
               Str s \<Rightarrow> Str (lower (strip s)) | NaN \<Rightarrow> Str [] | PyNone \<Rightarrow> Str []
             | Num i \<Rightarrow> NaN | Bool b \<Rightarrow> NaN | Ts t \<Rightarrow> NaN))
     ` {r \<in> set (rows account_data).
          case cell_at r ''First Name'' of
            Str s \<Rightarrow> strip s \<noteq> [] | NaN \<Rightarrow> False | PyNone \<Rightarrow> False
          | Num i \<Rightarrow> True | Bool b \<Rightarrow> True | Ts t \<Rightarrow> True}"
proof -
  have "engaged_names (named_rows account_data) =
     (\<lambda>r. (str_lower (str_strip (fillna [] (cell_at r ''First Name''))),
           str_lower (str_strip (fillna [] (cell_at r ''Last Name'')))))
     ` {r \<in> set (rows account_data).
          \<not> isna (cell_at r ''First Name'') \<and> str_strip (cell_at r ''First Name'') \<noteq> Str []}"
    by (simp add: engaged_names_image named_rows_def mask_def)
  then show ?thesis by (simp only: name_key_cases named_cases)
qed

text \<open>
  Claim C4. The engagement test splits the display name at whitespace (the no-break
  space included); with fewer than two tokens it is false; otherwise it is the
  membership of the lower-cased first and last token in the set of pairs, whatever
  stands between them. \<^verbatim>\<open>has_engaged_match\<close> and \<^verbatim>\<open>check_engaged\<close> agree on a text
  name. The set of pairs is taken from the rows whose first name is present and not
  blank: of a text name it holds the name trimmed and then lower-cased, of a missing
  last name the empty text. In the activity table of the example, \<^verbatim>\<open>' Jane '\<close> and
  \<^verbatim>\<open>'DOE'\<close> give the pair \<^verbatim>\<open>('jane', 'doe')\<close>; a name with a capital E acute, a
  no-break space and a tab matches the pair with the small e acute.
\<close>

theorem check_engaged_first_last:
  "check_engaged pairs (Str s) =
     (2 \<le> length (split s) \<and> (Str (lower (hd (split s))), Str (lower (last (split s)))) \<in> pairs)
   \<and> (map_of r ''party_unique_name'' = Some (Str s) \<longrightarrow>
        has_engaged_match pairs r = check_engaged pairs (Str s))
   \<and> (length (split s) < 2 \<longrightarrow> \<not> check_engaged pairs (Str s))
   \<and> (f \<noteq> [] \<and> l \<noteq> [] \<and> (\<forall>c \<in> set (f @ l). \<not> is_space c) \<longrightarrow>
        check_engaged pairs (Str (f @ lit '' '' @ mid @ lit '' '' @ l)) = ((Str (lower f), Str (lower l)) \<in> pairs))
   \<and> engaged_names (named_rows account_data) =
        (\<lambda>r. (case cell_at r ''First Name'' of
                  Str s \<Rightarrow> Str (lower (strip s)) | NaN \<Rightarrow> Str [] | PyNone \<Rightarrow> Str []
                | Num i \<Rightarrow> NaN | Bool b \<Rightarrow> NaN | Ts t \<Rightarrow> NaN,
               case cell_at r ''Last Name'' of
                  Str s \<Rightarrow> Str (lower (strip s)) | NaN \<Rightarrow> Str [] | PyNone \<Rightarrow> Str []
                | Num i \<Rightarrow> NaN | Bool b \<Rightarrow> NaN | Ts t \<Rightarrow> NaN))
        ` {r \<in> set (rows account_data).
             case cell_at r ''First Name'' of
               Str s \<Rightarrow> strip s \<noteq> [] | NaN \<Rightarrow> False | PyNone \<Rightarrow> False
             | Num i \<Rightarrow> True | Bool b \<Rightarrow> True | Ts t \<Rightarrow> True}
   \<and> engaged_names (named_rows activity_example)
       = {(Str (lit ''jane''), Str (lit ''doe'')), (Str (lit ''ann''), Str (lit ''lee''))}
   \<and> check_engaged {(Str (Latin (CHR 0xE9) # lit ''lodie''), Str (lit ''doe''))}
        (Str (Latin (CHR 0xC9) # lit ''LODIE'' @ Latin (CHR 0xA0) # lit ''Q.'' @ Latin (CHR 0x09) # lit ''Doe''))
   \<and> \<not> check_engaged {(Str (lit ''jane''), Str (lit ''doe''))} (Str (lit ''Jane_Doe''))"
proof (intro conjI impI)
  show eq: "check_engaged pairs (Str s) =
     (2 \<le> length (split s) \<and> (Str (lower (hd (split s))), Str (lower (last (split s)))) \<in> pairs)"
    by (auto simp: check_engaged_def split_strip Let_def)
  show "has_engaged_match pairs r = check_engaged pairs (Str s)"
    if "map_of r ''party_unique_name'' = Some (Str s)"
    using that by (auto simp: has_engaged_match_def check_engaged_def Let_def)
  show "\<not> check_engaged pairs (Str s)" if "length (split s) < 2"
    using that by (simp add: check_engaged_def split_strip Let_def)
  show "check_engaged pairs (Str (f @ lit '' '' @ mid @ lit '' '' @ l)) = ((Str (lower f), Str (lower l)) \<in> pairs)"
    if h: "f \<noteq> [] \<and> l \<noteq> [] \<and> (\<forall>c \<in> set (f @ l). \<not> is_space c)"
  proof -
    from h obtain ms where ms: "split (f @ lit '' '' @ mid @ lit '' '' @ l) = f # ms @ [l]"
      using split_first_last[of f l mid] by auto
    show ?thesis
      unfolding check_engaged_def cell.case split_strip Let_def ms by simp
  qed
  show "engaged_names (named_rows account_data) =
        (\<lambda>r. (case cell_at r ''First Name'' of
                  Str s \<Rightarrow> Str (lower (strip s)) | NaN \<Rightarrow> Str [] | PyNone \<Rightarrow> Str []
                | Num i \<Rightarrow> NaN | Bool b \<Rightarrow> NaN | Ts t \<Rightarrow> NaN,
               case cell_at r ''Last Name'' of
                  Str s \<Rightarrow> Str (lower (strip s)) | NaN \<Rightarrow> Str [] | PyNone \<Rightarrow> Str []
                | Num i \<Rightarrow> NaN | Bool b \<Rightarrow> NaN | Ts t \<Rightarrow> NaN))
        ` {r \<in> set (rows account_data).
             case cell_at r ''First Name'' of
               Str s \<Rightarrow> strip s \<noteq> [] | NaN \<Rightarrow> False | PyNone \<Rightarrow> False
             | Num i \<Rightarrow> True | Bool b \<Rightarrow> True | Ts t \<Rightarrow> True}"
    by (rule engaged_names_explicit)
  show "engaged_names (named_rows activity_example)
       = {(Str (lit ''jane''), Str (lit ''doe'')), (Str (lit ''ann''), Str (lit ''lee''))}"
    by code_simp
  show "check_engaged {(Str (Latin (CHR 0xE9) # lit ''lodie''), Str (lit ''doe''))}
        (Str (Latin (CHR 0xC9) # lit ''LODIE'' @ Latin (CHR 0xA0) # lit ''Q.'' @ Latin (CHR 0x09) # lit ''Doe''))"
    by code_simp
  show "\<not> check_engaged {(Str (lit ''jane''), Str (lit ''doe''))} (Str (lit ''Jane_Doe''))"
    by code_simp
qed

text \<open>
  A name of three words, and one of a single word.
\<close>

theorem check_engaged_first_last_witness:
  "has_engaged_match {(Str (lit ''jane''), Str (lit ''doe''))} [(''party_unique_name'', Str (lit ''Jane Q Doe''))]
   \<and> check_engaged {(Str (lit ''jane''), Str (lit ''doe''))} (Str (lit ''Jane Q Doe''))
   \<and> \<not> check_engaged {(Str (lit ''jane''), Str (lit ''doe''))} (Str (lit ''Jane''))"
proof -
  let ?pairs = "{(Str (lit ''jane''), Str (lit ''doe''))}"
  let ?r = "[(''party_unique_name'', Str (lit ''Jane Q Doe''))]"
  let ?fr = "\<lparr>columns = [''First Name''], rows = []\<rparr>"
  have h1: "map_of ?r ''party_unique_name'' = Some (Str (lit ''Jane Q Doe''))" by simp
  have h2: "(lit ''Jane'') \<noteq> [] \<and> (lit ''Doe'') \<noteq> [] \<and> (\<forall>c \<in> set ((lit ''Jane'') @ (lit ''Doe'')). \<not> is_space c)"
    by simp
  have h3: "length (split (lit ''Jane'')) < 2" by (simp add: split_def)
  have low: "(Str (lower (lit ''Jane'')), Str (lower (lit ''Doe''))) \<in> ?pairs" by code_simp
  have cat: "(lit ''Jane'') @ lit '' '' @ (lit ''Q'') @ lit '' '' @ (lit ''Doe'') = (lit ''Jane Q Doe'')" by simp
  from check_engaged_first_last[of ?pairs "(lit ''Jane Q Doe'')" ?r "(lit ''Jane'')" "(lit ''Doe'')" "(lit ''Q'')" ?fr] h1 h2 low
  have a: "has_engaged_match ?pairs ?r \<and> check_engaged ?pairs (Str (lit ''Jane Q Doe''))"
    unfolding cat by blast
  from check_engaged_first_last[of ?pairs "(lit ''Jane'')" ?r "(lit ''Jane'')" "(lit ''Doe'')" "(lit ''Q'')" ?fr] h3
  have b: "\<not> check_engaged ?pairs (Str (lit ''Jane''))" by blast
  from a b show ?thesis by blast
qed

text \<open>
  For a text code the status of the code is the status of the specification: purple for
  a code that is not blank, else yellow for an engaged contact, else red.
\<close>

lemma get_status_color_text:
  assumes "map_of r ''sales_affinity_code'' = Some (Str code)" "map_of r ''is_engaged'' = Some (Bool e)"
  shows "get_status_color r = Inr (spec_status (Str code) e)"
  using assms by (simp add: get_status_color_def spec_status_def)

text \<open>
  Claim C3, where the code departs from it. An empty field of the contacts file is read
  as \<^verbatim>\<open>NaN\<close>; \<^verbatim>\<open>str\<close> prints it as \<^verbatim>\<open>nan\<close>, which is not blank, so a contact
  without affinity code is purple whether engaged or not, where the precedence of the
  specification gives red or yellow.
\<close>

theorem get_status_color_missing_affinity:
  "get_status_color [(''sales_affinity_code'', NaN), (''is_engaged'', Bool False)] = Inr ''purple''
   \<and> spec_status NaN False = ''red''
   \<and> get_status_color [(''sales_affinity_code'', NaN), (''is_engaged'', Bool True)] = Inr ''purple''
   \<and> spec_status NaN True = ''yellow''"
  by (simp add: get_status_color_def spec_status_def strip_def)

section \<open>Properties of the contacts join\<close>

lemma cell_at_update_same: "cell_at (AList.update c v r) c = v"
  by (simp add: cell_at_def update_conv')

lemma cell_at_update_other: "c' \<noteq> c \<Longrightarrow> cell_at (AList.update c v r) c' = cell_at r c'"
  by (simp add: cell_at_def update_conv')

lemma map_of_update_other: "c' \<noteq> c \<Longrightarrow> map_of (AList.update c v r) c' = map_of r c'"
  by (simp add: update_conv')

lemma rows_assign: "rows (assign c f fr) = map (\<lambda>r. AList.update c (f r) r) (rows fr)"
  by (simp add: assign_def)

lemma columns_assign:
  "columns (assign c f fr) = (if c \<in> set (columns fr) then columns fr else columns fr @ [c])"
  by (simp add: assign_def)

lemma rows_mask: "rows (mask p fr) = filter p (rows fr)"
  by (simp add: mask_def)

lemma columns_mask: "columns (mask p fr) = columns fr"
  by (simp add: mask_def)

lemma semi_join_rows:
  "rows (semi_join (party_number_clean key contacts) (map Str ids)) =
     map (\<lambda>r. AList.update ''party_number_clean'' (normalize_id (cell_at r key)) r)
       (filter (\<lambda>r. normalize_id (cell_at r key) \<in> Str ` set ids) (rows contacts))"
  by (simp add: semi_join_def party_number_clean_def rows_mask rows_assign filter_map comp_def
      cell_at_update_same isin_def)

text \<open>
  Claim C5. The contacts kept by the join are exactly those whose normalized key is one
  of the account keys, in their order and with their multiplicity; the only column
  added is \<^verbatim>\<open>party_number_clean\<close>, and every other cell of a kept contact is the cell
  it had.
\<close>

theorem semi_join_exact:
  "rows (semi_join (party_number_clean key contacts) (map Str ids)) =
     map (\<lambda>r. AList.update ''party_number_clean'' (normalize_id (cell_at r key)) r)
       (filter (\<lambda>r. normalize_id (cell_at r key) \<in> Str ` set ids) (rows contacts))
   \<and> columns (semi_join (party_number_clean key contacts) (map Str ids)) =
       (if ''party_number_clean'' \<in> set (columns contacts) then columns contacts
        else columns contacts @ [''party_number_clean''])
   \<and> (\<forall>i < length (rows (semi_join (party_number_clean key contacts) (map Str ids))). \<forall>c.
         c \<noteq> ''party_number_clean'' \<longrightarrow>
           map_of (rows (semi_join (party_number_clean key contacts) (map Str ids)) ! i) c
           = map_of (filter (\<lambda>r. normalize_id (cell_at r key) \<in> Str ` set ids) (rows contacts) ! i) c)"
proof (intro conjI allI impI)
  show "rows (semi_join (party_number_clean key contacts) (map Str ids)) =
     map (\<lambda>r. AList.update ''party_number_clean'' (normalize_id (cell_at r key)) r)
       (filter (\<lambda>r. normalize_id (cell_at r key) \<in> Str ` set ids) (rows contacts))"
    by (rule semi_join_rows)
  show "columns (semi_join (party_number_clean key contacts) (map Str ids)) =
       (if ''party_number_clean'' \<in> set (columns contacts) then columns contacts
        else columns contacts @ [''party_number_clean''])"
    by (simp add: semi_join_def party_number_clean_def columns_mask columns_assign)
  fix i c
  assume i: "i < length (rows (semi_join (party_number_clean key contacts) (map Str ids)))"
    and c: "c \<noteq> ''party_number_clean''"
  from i have "i < length (filter (\<lambda>r. normalize_id (cell_at r key) \<in> Str ` set ids) (rows contacts))"
    by (simp add: semi_join_rows)
  then show "map_of (rows (semi_join (party_number_clean key contacts) (map Str ids)) ! i) c
           = map_of (filter (\<lambda>r. normalize_id (cell_at r key) \<in> Str ` set ids) (rows contacts) ! i) c"
    using c by (simp add: semi_join_rows map_of_update_other)
qed

text \<open>
  Two contacts, one of them of the account; its key begins with a no-break space.
\<close>

theorem semi_join_exact_witness:
  "rows (semi_join (party_number_clean ''party_number''
           \<lparr>columns = [''party_number'', ''party_unique_name''],
            rows = [[(''party_number'', Str (Latin (CHR 0xA0) # lit ''h-cit-1'')), (''party_unique_name'', Str (lit ''Jane Doe''))],
                    [(''party_number'', Str (lit ''2'')), (''party_unique_name'', Str (lit ''John Smith''))]]\<rparr>)
         (map Str [lit ''1'']))
   = [[(''party_number'', Str (Latin (CHR 0xA0) # lit ''h-cit-1'')), (''party_unique_name'', Str (lit ''Jane Doe'')),
       (''party_number_clean'', Str (lit ''1''))]]
   \<and> map_of (rows (semi_join (party_number_clean ''party_number''
           \<lparr>columns = [''party_number'', ''party_unique_name''],
            rows = [[(''party_number'', Str (Latin (CHR 0xA0) # lit ''h-cit-1'')), (''party_unique_name'', Str (lit ''Jane Doe''))],
                    [(''party_number'', Str (lit ''2'')), (''party_unique_name'', Str (lit ''John Smith''))]]\<rparr>)
         (map Str [lit ''1''])) ! 0) ''party_unique_name'' = Some (Str (lit ''Jane Doe''))"
proof -
  let ?fr = "\<lparr>columns = [''party_number'', ''party_unique_name''],
            rows = [[(''party_number'', Str (Latin (CHR 0xA0) # lit ''h-cit-1'')), (''party_unique_name'', Str (lit ''Jane Doe''))],
                    [(''party_number'', Str (lit ''2'')), (''party_unique_name'', Str (lit ''John Smith''))]]\<rparr>"
  let ?out = "semi_join (party_number_clean ''party_number'' ?fr) (map Str [lit ''1''])"
  let ?kept = "filter (\<lambda>r. normalize_id (cell_at r ''party_number'') \<in> Str ` set [lit ''1'']) (rows ?fr)"
  have n1: "normalize_id (Str (Latin (CHR 0xA0) # lit ''h-cit-1'')) = Str (lit ''1'')" by code_simp
  have n2: "normalize_id (Str (lit ''2'')) = Str (lit ''2'')" by code_simp
  have kept: "?kept = [[(''party_number'', Str (Latin (CHR 0xA0) # lit ''h-cit-1'')), (''party_unique_name'', Str (lit ''Jane Doe''))]]"
    using n1 n2 by (simp add: cell_at_def)
  note t = semi_join_exact[of "''party_number''" ?fr "[lit ''1'']"]
  from t have r: "rows ?out = map (\<lambda>r. AList.update ''party_number_clean'' (normalize_id (cell_at r ''party_number'')) r) ?kept"
    by (rule conjunct1)
  have rows_out: "rows ?out = [[(''party_number'', Str (Latin (CHR 0xA0) # lit ''h-cit-1'')), (''party_unique_name'', Str (lit ''Jane Doe'')),
       (''party_number_clean'', Str (lit ''1''))]]"
    unfolding r kept using n1 by (simp add: cell_at_def)
  from t have al: "\<forall>i < length (rows ?out). \<forall>c. c \<noteq> ''party_number_clean'' \<longrightarrow>
      map_of (rows ?out ! i) c = map_of (?kept ! i) c" by (rule conjunct2[THEN conjunct2])
  have len: "0 < length (rows ?out)" unfolding rows_out by simp
  have neq: "''party_unique_name'' \<noteq> ''party_number_clean''" by simp
  have "map_of (rows ?out ! 0) ''party_unique_name'' = map_of (?kept ! 0) ''party_unique_name''"
    by (rule al[rule_format, OF len neq])
  then have "map_of (rows ?out ! 0) ''party_unique_name'' = Some (Str (lit ''Jane Doe''))"
    unfolding kept by simp
  with rows_out show ?thesis by (rule conjI)
qed

section \<open>Properties of the accounts merge\<close>

lemma length_merge_rows:
  "length (merge_rows key left right l) = max 1 (length (matches key right l))"
  by (cases "matches key right l") (simp_all add: merge_rows_def)

lemma left_part_merge_row: "left_part key right (merge_row key left right l r) = l"
  by (simp add: left_part_def merge_row_def)

lemma left_part_null_row: "left_part key right (null_row key left right l) = l"
  by (simp add: left_part_def null_row_def)

lemma left_part_merge_rows:
  "map (left_part key right) (merge_rows key left right l)
   = replicate (max 1 (length (matches key right l))) l"
proof (cases "matches key right l")
  case Nil
  then show ?thesis by (simp add: merge_rows_def left_part_null_row)
next
  case (Cons m ms)
  have "map (left_part key right) (map (merge_row key left right l) (m # ms))
        = replicate (length (m # ms)) l"
    by (simp only: map_map comp_def left_part_merge_row map_replicate_const)
  with Cons show ?thesis by (simp add: merge_rows_def)
qed

lemma length_merge_left:
  "length (rows (merge_left key left right))
   = sum_list (map (\<lambda>l. max 1 (length (matches key right l))) (rows left))"
  by (simp add: merge_left_def length_concat comp_def length_merge_rows)

lemma left_part_merge_left:
  "map (left_part key right) (rows (merge_left key left right))
   = concat (map (\<lambda>l. replicate (max 1 (length (matches key right l))) l) (rows left))"
  by (simp add: merge_left_def map_concat comp_def left_part_merge_rows)

text \<open>
  Claim C6. When both frames have the key column, the merge is made, and it is a left
  outer join: the activity rows read off the merged rows are the activity rows in
  their order, each one as many times as it has matching firmographic rows, and once
  when it has none; so the number of rows is the sum of these counts. An activity row
  without a match carries \<^verbatim>\<open>NaN\<close> in the firmographic columns; one with matches is
  paired with each of them, duplicates included.
\<close>

theorem merged_left_outer_join:
  assumes "''CustomerId_NAR'' \<in> set (columns act)" "''CustomerId_NAR'' \<in> set (columns firm)"
  shows "merged act firm = Inr (merge_left ''CustomerId_NAR'' act firm)
    \<and> length (rows (merge_left ''CustomerId_NAR'' act firm))
        = sum_list (map (\<lambda>l. max 1 (length (matches ''CustomerId_NAR'' firm l))) (rows act))
    \<and> map (left_part ''CustomerId_NAR'' firm) (rows (merge_left ''CustomerId_NAR'' act firm))
        = concat (map (\<lambda>l. replicate (max 1 (length (matches ''CustomerId_NAR'' firm l))) l) (rows act))
    \<and> (\<forall>l \<in> set (rows act). matches ''CustomerId_NAR'' firm l = [] \<longrightarrow>
          l @ map (\<lambda>c. (right_name (columns act) c, NaN)) (right_columns ''CustomerId_NAR'' firm)
            \<in> set (rows (merge_left ''CustomerId_NAR'' act firm)))
    \<and> (\<forall>l \<in> set (rows act). \<forall>r \<in> set (matches ''CustomerId_NAR'' firm l).
          l @ map (\<lambda>c. (right_name (columns act) c, cell_at r c)) (right_columns ''CustomerId_NAR'' firm)
            \<in> set (rows (merge_left ''CustomerId_NAR'' act firm)))"
proof (intro conjI ballI impI)
  show "merged act firm = Inr (merge_left ''CustomerId_NAR'' act firm)"
    using assms by (simp add: merged_def)
  show "length (rows (merge_left ''CustomerId_NAR'' act firm))
        = sum_list (map (\<lambda>l. max 1 (length (matches ''CustomerId_NAR'' firm l))) (rows act))"
    by (rule length_merge_left)
  show "map (left_part ''CustomerId_NAR'' firm) (rows (merge_left ''CustomerId_NAR'' act firm))
        = concat (map (\<lambda>l. replicate (max 1 (length (matches ''CustomerId_NAR'' firm l))) l) (rows act))"
    by (rule left_part_merge_left)
next
  fix l assume l: "l \<in> set (rows act)" and m: "matches ''CustomerId_NAR'' firm l = []"
  from m have "merge_rows ''CustomerId_NAR'' act firm l
      = [l @ map (\<lambda>c. (right_name (columns act) c, NaN)) (right_columns ''CustomerId_NAR'' firm)]"
    by (simp add: merge_rows_def null_row_def)
  with l show "l @ map (\<lambda>c. (right_name (columns act) c, NaN)) (right_columns ''CustomerId_NAR'' firm)
            \<in> set (rows (merge_left ''CustomerId_NAR'' act firm))"
    by (force simp: merge_left_def)
next
  fix l r assume l: "l \<in> set (rows act)" and r: "r \<in> set (matches ''CustomerId_NAR'' firm l)"
  from r have "merge_row ''CustomerId_NAR'' act firm l r \<in> set (merge_rows ''CustomerId_NAR'' act firm l)"
    by (cases "matches ''CustomerId_NAR'' firm l") (auto simp: merge_rows_def)
  with l have "merge_row ''CustomerId_NAR'' act firm l r \<in> set (rows (merge_left ''CustomerId_NAR'' act firm))"
    by (force simp: merge_left_def)
  then show "l @ map (\<lambda>c. (right_name (columns act) c, cell_at r c)) (right_columns ''CustomerId_NAR'' firm)
            \<in> set (rows (merge_left ''CustomerId_NAR'' act firm))"
    by (simp add: merge_row_def)
qed

text \<open>
  Three activity rows with two, zero and one matching rows: four merged rows.
\<close>

theorem merged_left_outer_join_witness:
  "merged activity_example firmographic_example
     = Inr (merge_left ''CustomerId_NAR'' activity_example firmographic_example)
   \<and> length (rows (merge_left ''CustomerId_NAR'' activity_example firmographic_example)) = 4
   \<and> [(''CustomerId_NAR'', Str (lit ''2'')), (''Account Name'', Str (lit ''Bolt'')),
       (''First Name'', NaN), (''Last Name'', NaN),
       (''Account Name_DB'', NaN), (''Technographics'', NaN)]
       \<in> set (rows (merge_left ''CustomerId_NAR'' activity_example firmographic_example))"
proof -
  let ?l = "[(''CustomerId_NAR'', Str (lit ''2'')), (''Account Name'', Str (lit ''Bolt'')),
             (''First Name'', NaN), (''Last Name'', NaN)]"
  have c1: "''CustomerId_NAR'' \<in> set (columns activity_example)"
    and c2: "''CustomerId_NAR'' \<in> set (columns firmographic_example)"
    by (simp_all add: activity_example_def firmographic_example_def)
  note t = merged_left_outer_join[OF c1 c2]
  have s: "sum_list (map (\<lambda>l. max 1 (length (matches ''CustomerId_NAR'' firmographic_example l)))
             (rows activity_example)) = 4"
    by (simp add: activity_example_def firmographic_example_def matches_def key_match_def cell_at_def)
  have l: "?l \<in> set (rows activity_example)" by (simp add: activity_example_def)
  have m: "matches ''CustomerId_NAR'' firmographic_example ?l = []"
    by (simp add: firmographic_example_def matches_def key_match_def cell_at_def)
  have n: "?l @ map (\<lambda>c. (right_name (columns activity_example) c, NaN))
                  (right_columns ''CustomerId_NAR'' firmographic_example)
           = [(''CustomerId_NAR'', Str (lit ''2'')), (''Account Name'', Str (lit ''Bolt'')),
       (''First Name'', NaN), (''Last Name'', NaN),
              (''Account Name_DB'', NaN), (''Technographics'', NaN)]"
    by (simp add: activity_example_def firmographic_example_def right_columns_def right_name_def)
  from t have t1: "merged activity_example firmographic_example
     = Inr (merge_left ''CustomerId_NAR'' activity_example firmographic_example)" by (rule conjunct1)
  from t have t2: "length (rows (merge_left ''CustomerId_NAR'' activity_example firmographic_example)) = 4"
    unfolding s by (rule conjunct2[THEN conjunct1])
  from t have t4: "\<forall>l \<in> set (rows activity_example). matches ''CustomerId_NAR'' firmographic_example l = [] \<longrightarrow>
          l @ map (\<lambda>c. (right_name (columns activity_example) c, NaN)) (right_columns ''CustomerId_NAR'' firmographic_example)
            \<in> set (rows (merge_left ''CustomerId_NAR'' activity_example firmographic_example))"
    by (rule conjunct2[THEN conjunct2, THEN conjunct2, THEN conjunct1])
  have t4': "[(''CustomerId_NAR'', Str (lit ''2'')), (''Account Name'', Str (lit ''Bolt'')),
       (''First Name'', NaN), (''Last Name'', NaN),
       (''Account Name_DB'', NaN), (''Technographics'', NaN)]
       \<in> set (rows (merge_left ''CustomerId_NAR'' activity_example firmographic_example))"
    using t4[rule_format, OF l m] unfolding n .
  from t1 t2 t4' show ?thesis by (intro conjI)
qed

section \<open>Properties of the date column\<close>

text \<open>
  Both scripts take the first of \<^verbatim>\<open>Activity Date\<close>, \<^verbatim>\<open>Activity_DateOnly\<close>, \<^verbatim>\<open>Date\<close>
  that is a column; a cell that cannot be read as a date becomes the null, and no
  cell makes the conversion fail. \<^verbatim>\<open>load_data\<close> reports the absence of all three and
  stops; the loop of \<^verbatim>\<open>app3.py\<close> then leaves the frame as it is and says nothing.
\<close>

lemma date_col_find: "date_col cands fr = find (\<lambda>c. c \<in> set (columns fr)) cands"
  by (induction cands) auto

lemma date_col_priority:
  "date_col date_candidates fr =
     (if ''Activity Date'' \<in> set (columns fr) then Some ''Activity Date''
      else if ''Activity_DateOnly'' \<in> set (columns fr) then Some ''Activity_DateOnly''
      else if ''Date'' \<in> set (columns fr) then Some ''Date'' else None)"
  by (simp add: date_candidates_def)

lemma load_data_found:
  assumes "date_col date_candidates fr = Some c"
  shows "load_data parse fr =
           Inr (assign ''__date_col__'' (\<lambda>r. cell_at r c)
                  (assign c (\<lambda>r. to_datetime parse (cell_at r c)) fr))"
proof -
  from assms have "c \<noteq> []"
    by (auto simp: date_col_priority split: if_splits)
  with assms show ?thesis by (simp add: load_data_def)
qed

lemma to_datetime_coerce:
  "to_datetime parse c = NaN \<or> (\<exists>t. parse c = Some t \<and> to_datetime parse c = Ts t)"
  by (cases "parse c") (simp_all add: to_datetime_def)

lemma normalize_date_columns_found:
  "date_col cands fr = Some c \<Longrightarrow>
   normalize_date_columns parse cands fr
     = assign ''__date_col__'' (\<lambda>r. to_datetime parse (cell_at r c)) fr"
  by (induction cands) (auto split: if_splits)

lemma normalize_date_columns_silent:
  "date_col cands fr = None \<Longrightarrow> normalize_date_columns parse cands fr = fr"
  by (induction cands) (auto split: if_splits)

lemma load_data_reports:
  "date_col date_candidates fr = None \<Longrightarrow> \<exists>msg. load_data parse fr = Inl (StopExecution msg)"
  by (simp add: load_data_def)

text \<open>
  Claim C7, where the code departs from it. On an activity table without any of the
  three date columns, the loop of \<^verbatim>\<open>app3.py\<close> returns the table unchanged: no
  \<^verbatim>\<open>__date_col__\<close> and nothing reported, while \<^verbatim>\<open>load_data\<close> of \<^verbatim>\<open>app.py\<close> shows
  the error and stops on the same table.
\<close>

theorem date_column_absent_silent:
  "date_col date_candidates undated_example = None
   \<and> normalize_date_columns parse date_candidates undated_example = undated_example
   \<and> load_data parse undated_example
       = Inl (StopExecution ''No date column found (expected one of: Activity Date, Activity_DateOnly, Date).'')"
  by (simp add: undated_example_def date_candidates_def load_data_def)

section \<open>Properties of the loader\<close>

lemma load_attempts:
  "fst (load_csv_from_github read_csv url) =
     (if read_csv url ''latin1'' = UnicodeDecodeError then [''latin1'', ''ISO-8859-1''] else [''latin1''])"
  by (auto simp: load_csv_from_github_def split: read_result.splits)

text \<open>
  Claim C8 (as the code has it). \<^verbatim>\<open>load_csv_from_github\<close> tries \<^verbatim>\<open>latin1\<close> first and
  \<^verbatim>\<open>ISO-8859-1\<close> only after a decoding fault of the first attempt; UTF-8 is never
  tried. It returns a frame exactly when its last attempt parsed, and then that frame;
  when no attempt parses it fails: a failure of the first attempt that is not a
  decoding fault is shown and stops the script, and a failure of the second attempt
  escapes as the exception it is.
\<close>

theorem load_csv_encodings:
  "(fst (load_csv_from_github read_csv url) = [''latin1'']
      \<or> fst (load_csv_from_github read_csv url) = [''latin1'', ''ISO-8859-1''])
   \<and> (fst (load_csv_from_github read_csv url) = [''latin1'', ''ISO-8859-1'']
        \<longleftrightarrow> read_csv url ''latin1'' = UnicodeDecodeError)
   \<and> ''utf-8'' \<notin> set (fst (load_csv_from_github read_csv url))
   \<and> (snd (load_csv_from_github read_csv url) = Returned t
        \<longleftrightarrow> read_csv url (last (fst (load_csv_from_github read_csv url))) = Parsed t)
   \<and> ((\<forall>enc \<in> set (fst (load_csv_from_github read_csv url)). \<forall>t. read_csv url enc \<noteq> Parsed t)
        \<longrightarrow> (\<exists>msg. snd (load_csv_from_github read_csv url) = Stopped msg)
            \<or> (\<exists>e. snd (load_csv_from_github read_csv url) = Escaped e))
   \<and> (read_csv url ''latin1'' = Parsed t \<longrightarrow>
        load_csv_from_github read_csv url = ([''latin1''], Returned t))
   \<and> (read_csv url ''latin1'' = OtherException e \<longrightarrow>
        load_csv_from_github read_csv url
          = ([''latin1''], Stopped (''Error loading '' @ url @ '': '' @ e)))
   \<and> (read_csv url ''latin1'' = UnicodeDecodeError \<and> read_csv url ''ISO-8859-1'' = Parsed t \<longrightarrow>
        load_csv_from_github read_csv url = ([''latin1'', ''ISO-8859-1''], Returned t))
   \<and> (read_csv url ''latin1'' = UnicodeDecodeError \<and> read_csv url ''ISO-8859-1'' = r
        \<and> (\<forall>t. r \<noteq> Parsed t) \<longrightarrow>
        load_csv_from_github read_csv url = ([''latin1'', ''ISO-8859-1''], Escaped r))"
proof (intro conjI)
  show "fst (load_csv_from_github read_csv url) = [''latin1'']
      \<or> fst (load_csv_from_github read_csv url) = [''latin1'', ''ISO-8859-1'']"
    by (simp add: load_attempts)
  show "fst (load_csv_from_github read_csv url) = [''latin1'', ''ISO-8859-1'']
        \<longleftrightarrow> read_csv url ''latin1'' = UnicodeDecodeError"
    by (simp add: load_attempts)
  show "''utf-8'' \<notin> set (fst (load_csv_from_github read_csv url))"
    by (simp add: load_attempts)
  show "snd (load_csv_from_github read_csv url) = Returned t
        \<longleftrightarrow> read_csv url (last (fst (load_csv_from_github read_csv url))) = Parsed t"
    by (auto simp: load_csv_from_github_def split: read_result.splits)
  show "(\<forall>enc \<in> set (fst (load_csv_from_github read_csv url)). \<forall>t. read_csv url enc \<noteq> Parsed t)
        \<longrightarrow> (\<exists>msg. snd (load_csv_from_github read_csv url) = Stopped msg)
            \<or> (\<exists>e. snd (load_csv_from_github read_csv url) = Escaped e)"
    by (auto simp: load_csv_from_github_def split: read_result.splits)
  show "read_csv url ''latin1'' = Parsed t \<longrightarrow>
        load_csv_from_github read_csv url = ([''latin1''], Returned t)"
    by (simp add: load_csv_from_github_def)
  show "read_csv url ''latin1'' = OtherException e \<longrightarrow>
        load_csv_from_github read_csv url
          = ([''latin1''], Stopped (''Error loading '' @ url @ '': '' @ e))"
    by (simp add: load_csv_from_github_def)
  show "read_csv url ''latin1'' = UnicodeDecodeError \<and> read_csv url ''ISO-8859-1'' = Parsed t \<longrightarrow>
        load_csv_from_github read_csv url = ([''latin1'', ''ISO-8859-1''], Returned t)"
    by (simp add: load_csv_from_github_def)
  show "read_csv url ''latin1'' = UnicodeDecodeError \<and> read_csv url ''ISO-8859-1'' = r
        \<and> (\<forall>t. r \<noteq> Parsed t) \<longrightarrow>
        load_csv_from_github read_csv url = ([''latin1'', ''ISO-8859-1''], Escaped r)"
    by (cases r) (auto simp: load_csv_from_github_def)
qed

text \<open>
  A source that cannot be reached: one attempt, the error is shown and the script
  stops. A source that is read with a decoding fault first and a parser error in the
  fallback: two attempts, and the parser error escapes.
\<close>

theorem load_csv_encodings_witness:
  "load_csv_from_github read_unreachable ''main.csv''
     = ([''latin1''], Stopped ''Error loading main.csv: HTTP Error 404: Not Found'')
   \<and> load_csv_from_github read_undecodable ''main.csv''
     = ([''latin1'', ''ISO-8859-1''], Escaped (OtherException ''ParserError''))"
proof -
  have h1: "read_unreachable ''main.csv'' ''latin1'' = OtherException ''HTTP Error 404: Not Found''"
    by (simp add: read_unreachable_def)
  have h2: "read_undecodable ''main.csv'' ''latin1'' = UnicodeDecodeError
            \<and> read_undecodable ''main.csv'' ''ISO-8859-1'' = OtherException ''ParserError''
            \<and> (\<forall>t. OtherException ''ParserError'' \<noteq> Parsed t)"
    by (simp add: read_undecodable_def)
  have h3: "\<forall>enc \<in> set (fst (load_csv_from_github read_unreachable ''main.csv'')).
             \<forall>t. read_unreachable ''main.csv'' enc \<noteq> Parsed t"
    by (simp add: read_unreachable_def)
  note t1 = load_csv_encodings[of read_unreachable "''main.csv''" activity_example
              "''HTTP Error 404: Not Found''" "OtherException ''ParserError''"]
  note t2 = load_csv_encodings[of read_undecodable "''main.csv''" activity_example
              "''HTTP Error 404: Not Found''" "OtherException ''ParserError''"]
  from t1 h3 have "(\<exists>msg. snd (load_csv_from_github read_unreachable ''main.csv'') = Stopped msg)
        \<or> (\<exists>e. snd (load_csv_from_github read_unreachable ''main.csv'') = Escaped e)"
    by blast
  moreover from t1 h1 have a: "load_csv_from_github read_unreachable ''main.csv''
     = ([''latin1''], Stopped (''Error loading '' @ ''main.csv'' @ '': '' @ ''HTTP Error 404: Not Found''))"
    by blast
  moreover from t2 h2 have b: "load_csv_from_github read_undecodable ''main.csv''
     = ([''latin1'', ''ISO-8859-1''], Escaped (OtherException ''ParserError''))"
    by blast
  ultimately show ?thesis by simp
qed

text \<open>
  Claim C8 as stated fails: on a source that parses, the only encoding tried is
  \<^verbatim>\<open>latin1\<close>, which is not a start of the order UTF-8, Latin-1.
\<close>

theorem load_csv_not_utf8_first:
  "fst (load_csv_from_github read_example ''main.csv'') = [''latin1'']
   \<and> \<not> prefix (fst (load_csv_from_github read_example ''main.csv'')) spec_encodings"
  by (simp add: load_csv_from_github_def read_example_def spec_encodings_def)

section \<open>Properties of the contact key\<close>

lemma contact_key_priority:
  "contact_key fr =
     (if ''party_number'' \<in> set (columns fr) then Some ''party_number''
      else if ''Party_Number'' \<in> set (columns fr) then Some ''Party_Number''
      else if ''party_id'' \<in> set (columns fr) then Some ''party_id''
      else if ''Party_ID'' \<in> set (columns fr) then Some ''Party_ID'' else None)"
  by (simp add: contact_key_def possible_keys_def)

lemma contact_key_None_iff:
  "contact_key fr = None \<longleftrightarrow> (\<forall>k \<in> set possible_keys. k \<notin> set (columns fr))"
  by (auto simp: contact_key_def find_None_iff)

lemma contact_key_Some:
  "contact_key fr = Some k \<Longrightarrow> k \<in> set possible_keys \<and> k \<in> set (columns fr)"
  by (auto simp: contact_key_def find_Some_iff)

text \<open>
  Claim C9. The contact key is the first of \<^verbatim>\<open>party_number\<close>, \<^verbatim>\<open>Party_Number\<close>,
  \<^verbatim>\<open>party_id\<close>, \<^verbatim>\<open>Party_ID\<close> that is a column of the contacts table. When none is,
  the contacts join shows the error and stops: no contacts are joined, and the
  activity table, the firmographic table and the named rows are what they were.
\<close>

theorem contact_key_first_alias:
  "contact_key contacts =
     (if ''party_number'' \<in> set (columns contacts) then Some ''party_number''
      else if ''Party_Number'' \<in> set (columns contacts) then Some ''Party_Number''
      else if ''party_id'' \<in> set (columns contacts) then Some ''party_id''
      else if ''Party_ID'' \<in> set (columns contacts) then Some ''Party_ID'' else None)
   \<and> ((\<forall>k \<in> set possible_keys. k \<notin> set (columns (contacts_df s))) \<longrightarrow>
        contacts_join account_choice s
          = Stop (s\<lparr>shown := shown s @ [''Could not find any of these join keys in contacts dataset'']\<rparr>)
        \<and> df (session_of (contacts_join account_choice s)) = df s
        \<and> db_df (session_of (contacts_join account_choice s)) = db_df s
        \<and> contacts_df (session_of (contacts_join account_choice s)) = contacts_df s
        \<and> named (session_of (contacts_join account_choice s)) = named s
        \<and> account_contacts (session_of (contacts_join account_choice s)) = account_contacts s)"
proof (intro conjI impI)
  show "contact_key contacts =
     (if ''party_number'' \<in> set (columns contacts) then Some ''party_number''
      else if ''Party_Number'' \<in> set (columns contacts) then Some ''Party_Number''
      else if ''party_id'' \<in> set (columns contacts) then Some ''party_id''
      else if ''Party_ID'' \<in> set (columns contacts) then Some ''Party_ID'' else None)"
    by (rule contact_key_priority)
next
  assume "\<forall>k \<in> set possible_keys. k \<notin> set (columns (contacts_df s))"
  then have n: "contact_key (contacts_df s) = None" by (simp add: contact_key_None_iff)
  then show st: "contacts_join account_choice s
          = Stop (s\<lparr>shown := shown s @ [''Could not find any of these join keys in contacts dataset'']\<rparr>)"
    by (simp add: contacts_join_def)
  show "df (session_of (contacts_join account_choice s)) = df s"
    "db_df (session_of (contacts_join account_choice s)) = db_df s"
    "contacts_df (session_of (contacts_join account_choice s)) = contacts_df s"
    "named (session_of (contacts_join account_choice s)) = named s"
    "account_contacts (session_of (contacts_join account_choice s)) = account_contacts s"
    by (simp_all add: st)
qed

text \<open>
  The contacts table of the example has the first alias; a table without any alias stops the join.
\<close>

theorem contact_key_first_alias_witness:
  "contact_key contacts_example = Some ''party_number''
   \<and> contacts_join (lit ''Acme'') (session_example\<lparr>contacts_df := no_key_example\<rparr>)
       = Stop (session_example\<lparr>contacts_df := no_key_example,
                 shown := [''Could not find any of these join keys in contacts dataset'']\<rparr>)
   \<and> df (session_of (contacts_join (lit ''Acme'') (session_example\<lparr>contacts_df := no_key_example\<rparr>)))
       = activity_example"
proof -
  let ?s = "session_example\<lparr>contacts_df := no_key_example\<rparr>"
  have h: "\<forall>k \<in> set possible_keys. k \<notin> set (columns (contacts_df ?s))"
    by (simp add: possible_keys_def no_key_example_def)
  have c: "''party_number'' \<in> set (columns contacts_example)"
    by (simp add: contacts_example_def)
  note t = contact_key_first_alias[of contacts_example ?s "lit ''Acme''"]
  from t c have a: "contact_key contacts_example = Some ''party_number''" by simp
  from t h have b: "contacts_join (lit ''Acme'') ?s
          = Stop (?s\<lparr>shown := shown ?s @ [''Could not find any of these join keys in contacts dataset'']\<rparr>)"
    and d: "df (session_of (contacts_join (lit ''Acme'') ?s)) = df ?s"
    by blast+
  have e: "shown ?s = []" "df ?s = activity_example" by (simp_all add: session_example_def)
  from a b d show ?thesis by (simp add: e)
qed

section \<open>What the derivations do to the loaded tables\<close>

lemma without_column_assign: "without_column c (assign c f fr) = without_column c fr"
  by (simp add: without_column_def assign_def delete_update_same comp_def)

lemma loaded_view_contacts_join:
  "loaded_view (session_of (contacts_join account_choice s)) = loaded_view s"
  by (cases "contact_key (contacts_df s)")
     (simp_all add: contacts_join_def loaded_view_def Let_def party_number_clean_def
        CustomerId_NAR_clean_def without_column_assign)

lemma loaded_derive_engagement:
  "df (session_of (derive_engagement s)) = df s
   \<and> db_df (session_of (derive_engagement s)) = db_df s
   \<and> contacts_df (session_of (derive_engagement s)) = contacts_df s"
  by (simp add: derive_engagement_def Let_def split: sum.splits)

lemma loaded_filter_contacts:
  "df (session_of (filter_contacts contains color_filter search_query s)) = df s
   \<and> db_df (session_of (filter_contacts contains color_filter search_query s)) = db_df s
   \<and> contacts_df (session_of (filter_contacts contains color_filter search_query s)) = contacts_df s"
  by (simp add: filter_contacts_def Let_def)

lemma loaded_flag_engaged:
  "df (session_of (flag_engaged s)) = df s
   \<and> db_df (session_of (flag_engaged s)) = db_df s
   \<and> contacts_df (session_of (flag_engaged s)) = contacts_df s"
  by (simp add: flag_engaged_def Let_def)

lemma loaded_view_and_then:
  assumes "\<And>s. loaded_view (session_of (f s)) = loaded_view s"
  shows "loaded_view (session_of (and_then p f)) = loaded_view (session_of p)"
  using assms by (cases p) (simp_all add: and_then_def)

lemma loaded_view_derive_all:
  "loaded_view (session_of (derive_all contains account_choice color_filter search_query s))
   = loaded_view s"
proof -
  have 1: "\<And>s. loaded_view (session_of (derive_engagement s)) = loaded_view s"
    by (simp add: loaded_view_def loaded_derive_engagement)
  have 2: "\<And>s. loaded_view (session_of (filter_contacts contains color_filter search_query s)) = loaded_view s"
    by (simp add: loaded_view_def loaded_filter_contacts)
  have 3: "\<And>s. loaded_view (session_of (flag_engaged s)) = loaded_view s"
    by (simp add: loaded_view_def loaded_flag_engaged)
  show ?thesis
    unfolding derive_all_def
    by (simp only: loaded_view_and_then[of flag_engaged, OF 3]
        loaded_view_and_then[of "filter_contacts contains color_filter search_query", OF 2]
        loaded_view_and_then[of derive_engagement, OF 1] loaded_view_contacts_join)
qed

lemma contacts_join_continues:
  assumes "contact_key (contacts_df s) = Some key"
    and "''CustomerId_NAR'' \<in> set (columns (df s))" and "''Account Name'' \<in> set (columns (df s))"
  shows "contacts_df (session_of (contacts_join account_choice s)) = party_number_clean key (contacts_df s)
    \<and> df (session_of (contacts_join account_choice s)) = CustomerId_NAR_clean (df s)"
  using assms by (simp add: contacts_join_def Let_def CustomerId_NAR_clean_def assign_def)

text \<open>
  Claim C10 (as the code has it). The engagement flag and the status are stored in
  \<^verbatim>\<open>account_contacts\<close> and \<^verbatim>\<open>filtered_contacts\<close>, which are copies: these blocks and
  the filter leave the three loaded tables as they are. The normalized ids are stored
  in the loaded tables themselves, as the columns \<^verbatim>\<open>party_number_clean\<close> of the
  contacts table and \<^verbatim>\<open>CustomerId_NAR_clean\<close> of the activity table; apart from these
  two columns the loaded tables are unchanged after every block and after the whole
  run, and the firmographic table is never touched.
\<close>

theorem derived_columns_frame:
  "db_df (session_of (derive_all contains account_choice color_filter search_query s)) = db_df s
   \<and> without_column ''CustomerId_NAR_clean''
        (df (session_of (derive_all contains account_choice color_filter search_query s)))
      = without_column ''CustomerId_NAR_clean'' (df s)
   \<and> without_column ''party_number_clean''
        (contacts_df (session_of (derive_all contains account_choice color_filter search_query s)))
      = without_column ''party_number_clean'' (contacts_df s)
   \<and> db_df (session_of (contacts_join account_choice s)) = db_df s
   \<and> without_column ''CustomerId_NAR_clean'' (df (session_of (contacts_join account_choice s)))
      = without_column ''CustomerId_NAR_clean'' (df s)
   \<and> without_column ''party_number_clean'' (contacts_df (session_of (contacts_join account_choice s)))
      = without_column ''party_number_clean'' (contacts_df s)
   \<and> df (session_of (derive_engagement s)) = df s
   \<and> db_df (session_of (derive_engagement s)) = db_df s
   \<and> contacts_df (session_of (derive_engagement s)) = contacts_df s
   \<and> df (session_of (filter_contacts contains color_filter search_query s)) = df s
   \<and> db_df (session_of (filter_contacts contains color_filter search_query s)) = db_df s
   \<and> contacts_df (session_of (filter_contacts contains color_filter search_query s)) = contacts_df s
   \<and> df (session_of (flag_engaged s)) = df s
   \<and> db_df (session_of (flag_engaged s)) = db_df s
   \<and> contacts_df (session_of (flag_engaged s)) = contacts_df s"
proof -
  have a: "db_df (session_of (derive_all contains account_choice color_filter search_query s)) = db_df s
   \<and> without_column ''CustomerId_NAR_clean''
        (df (session_of (derive_all contains account_choice color_filter search_query s)))
      = without_column ''CustomerId_NAR_clean'' (df s)
   \<and> without_column ''party_number_clean''
        (contacts_df (session_of (derive_all contains account_choice color_filter search_query s)))
      = without_column ''party_number_clean'' (contacts_df s)"
    using loaded_view_derive_all[of contains account_choice color_filter search_query s]
    by (simp add: loaded_view_def)
  have b: "db_df (session_of (contacts_join account_choice s)) = db_df s
   \<and> without_column ''CustomerId_NAR_clean'' (df (session_of (contacts_join account_choice s)))
      = without_column ''CustomerId_NAR_clean'' (df s)
   \<and> without_column ''party_number_clean'' (contacts_df (session_of (contacts_join account_choice s)))
      = without_column ''party_number_clean'' (contacts_df s)"
    using loaded_view_contacts_join[of account_choice s] by (simp add: loaded_view_def)
  from a b loaded_derive_engagement[of s]
    loaded_filter_contacts[of contains color_filter search_query s] loaded_flag_engaged[of s]
  show ?thesis by (intro conjI) (elim conjE, assumption)+
qed

text \<open>
  The run on the example session: the firmographic table and the contacts but for the new column.
\<close>

theorem derived_columns_frame_witness:
  "db_df (session_of (derive_all (\<lambda>q t. True) (lit ''Acme'') [''red'', ''yellow'', ''purple''] [] session_example))
     = firmographic_example
   \<and> without_column ''party_number_clean''
        (contacts_df (session_of (derive_all (\<lambda>q t. True) (lit ''Acme'') [''red'', ''yellow'', ''purple''] [] session_example)))
     = contacts_example"
proof -
  have w: "without_column ''party_number_clean'' contacts_example = contacts_example"
    by (simp add: without_column_def contacts_example_def)
  have e: "db_df session_example = firmographic_example" "contacts_df session_example = contacts_example"
    by (simp_all add: session_example_def)
  from derived_columns_frame[of "\<lambda>q t. True" "lit ''Acme''" "[''red'', ''yellow'', ''purple'']" "[]" session_example]
  show ?thesis by (simp add: e w)
qed

text \<open>
  Claim C10 as stated fails: after the contacts join of the example session the loaded
  contacts table and the loaded activity table each have one column more.
\<close>

theorem contacts_join_mutates_loaded:
  "contacts_df (session_of (contacts_join (lit ''Acme'') session_example)) \<noteq> contacts_df session_example
   \<and> df (session_of (contacts_join (lit ''Acme'') session_example)) \<noteq> df session_example"
proof -
  have c0: "columns (contacts_df session_example)
           = [''party_number'', ''party_unique_name'', ''sales_affinity_code'']"
    and d0: "columns (df session_example)
           = [''CustomerId_NAR'', ''Account Name'', ''First Name'', ''Last Name'']"
    by (simp_all add: session_example_def contacts_example_def activity_example_def)
  have k: "contact_key (contacts_df session_example) = Some ''party_number''"
    by (simp add: contact_key_def possible_keys_def c0)
  have j: "contacts_df (session_of (contacts_join (lit ''Acme'') session_example))
             = party_number_clean ''party_number'' (contacts_df session_example)
    \<and> df (session_of (contacts_join (lit ''Acme'') session_example)) = CustomerId_NAR_clean (df session_example)"
    by (rule contacts_join_continues[OF k]) (simp_all add: d0)
  have "columns (party_number_clean ''party_number'' (contacts_df session_example))
        \<noteq> columns (contacts_df session_example)"
    by (simp add: party_number_clean_def assign_def c0)
  moreover have "columns (CustomerId_NAR_clean (df session_example)) \<noteq> columns (df session_example)"
    by (simp add: CustomerId_NAR_clean_def assign_def d0)
  ultimately show ?thesis unfolding j[THEN conjunct1] j[THEN conjunct2] by metis
qed

end
